theory Spec2Isabelle
  imports
    Main
    "HOL-Library.Word"
    "HOL-Library.FSet"
    "HOL-Library.Char_ord"
    "HOL-Library.List_Lexorder"
begin

section \<open>The profile manifest of \<^verbatim>\<open>src/nix/profile.cc\<close>\<close>

text \<open>
  The development embeds the manifest model, the element matchers, the profile builder
  and the three mutating commands of \<^verbatim>\<open>src/nix/profile.cc\<close>.

  Conventions.
  \<^item> \<^verbatim>\<open>PathSet\<close> is \<^verbatim>\<open>std::set<std::string>\<close>: a finite set iterated in ascending
    byte-wise lexicographic order. It is a \<open>string fset\<close>, iterated through
    \<open>sorted_list_of_fset\<close> (the order of \<open>Char_ord\<close> and \<open>List_Lexorder\<close>).
  \<^item> A thrown exception is an \<open>Inl\<close> result.
  \<^item> \<^verbatim>\<open>size_t\<close> values (positions, sizes) are natural numbers: the code only compares
    them, increments an index below a vector's size and subtracts a smaller size from a
    larger one, so nothing wraps.
  \<^item> Functions and types that the file uses but does not define (\<^verbatim>\<open>FlakeRef\<close>,
    \<^verbatim>\<open>string2Int\<close>, the store, \<^verbatim>\<open>std::regex\<close>, \<^verbatim>\<open>buildProfile\<close>, ...) are parameters.
\<close>

subsection \<open>JSON values\<close>

text \<open>
  The value type of \<^verbatim>\<open>nlohmann::json\<close>. An object is a \<^verbatim>\<open>std::map\<close>; it is written as the
  list of its members in key order. Floating-point numbers are left out. The model works
  on JSON values: \<^verbatim>\<open>json::parse(readFile(...))\<close> and \<^verbatim>\<open>json.dump()\<close> are the boundary.
\<close>

datatype json =
    JNull
  | JBool bool
  | JInt int
  | JString string
  | JArray "json list"
  | JObject "(string \<times> json) list"

datatype error =
    UnsupportedVersion int
  | JsonTypeError
  | UnsupportedInstallable string
  | BadFlakeRef string
  | RegexError string
  | ResolutionFailure string
  | BuildFailure string
  | MergeConflict string

text \<open>
  \<^verbatim>\<open>for (auto & x : j)\<close>: an array yields its items, an object its values, \<^verbatim>\<open>null\<close> nothing,
  and any other value yields itself once.
\<close>

fun json_items :: "json \<Rightarrow> json list" where
  "json_items JNull = []"
| "json_items (JArray xs) = xs"
| "json_items (JObject kvs) = map snd kvs"
| "json_items j = [j]"

text \<open>
  \<^verbatim>\<open>j[key]\<close> on a non-const value: a missing member reads as \<^verbatim>\<open>null\<close> (the library inserts
  it, and turns a \<^verbatim>\<open>null\<close> \<^verbatim>\<open>j\<close> into an object first); any other kind of value throws.
\<close>

definition json_at :: "json \<Rightarrow> string \<Rightarrow> error + json" where
  "json_at j key =
     (case j of
        JNull \<Rightarrow> Inr JNull
      | JObject kvs \<Rightarrow> Inr (case map_of kvs key of None \<Rightarrow> JNull | Some v \<Rightarrow> v)
      | _ \<Rightarrow> Inl JsonTypeError)"

text \<open>The conversions \<^verbatim>\<open>get<std::string>()\<close>, \<^verbatim>\<open>get<bool>()\<close> and \<^verbatim>\<open>get<int>()\<close>.\<close>

definition get_string :: "json \<Rightarrow> error + string" where
  "get_string j = (case j of JString s \<Rightarrow> Inr s | _ \<Rightarrow> Inl JsonTypeError)"

definition get_bool :: "json \<Rightarrow> error + bool" where
  "get_bool j = (case j of JBool b \<Rightarrow> Inr b | _ \<Rightarrow> Inl JsonTypeError)"

text \<open>
  \<^verbatim>\<open>get<int>()\<close> converts the stored 64-bit integer with \<^verbatim>\<open>static_cast<int>\<close>, which keeps
  the low 32 bits; a boolean converts to 0 or 1.
\<close>

definition get_int :: "json \<Rightarrow> error + int" where
  "get_int j =
     (case j of
        JInt n \<Rightarrow> Inr (sint (word_of_int n :: 32 word))
      | JBool b \<Rightarrow> Inr (if b then 1 else 0)
      | _ \<Rightarrow> Inl JsonTypeError)"

text \<open>\<^verbatim>\<open>j.value(key, default)\<close> with an \<^verbatim>\<open>int\<close> and with a string default.\<close>

definition value_int :: "json \<Rightarrow> string \<Rightarrow> int \<Rightarrow> error + int" where
  "value_int j key dflt =
     (case j of
        JObject kvs \<Rightarrow> (case map_of kvs key of None \<Rightarrow> Inr dflt | Some v \<Rightarrow> get_int v)
      | _ \<Rightarrow> Inl JsonTypeError)"

definition value_string :: "json \<Rightarrow> string \<Rightarrow> string \<Rightarrow> error + string" where
  "value_string j key dflt =
     (case j of
        JObject kvs \<Rightarrow> (case map_of kvs key of None \<Rightarrow> Inr dflt | Some v \<Rightarrow> get_string v)
      | _ \<Rightarrow> Inl JsonTypeError)"

subsection \<open>Data model\<close>

type_synonym Path = string
type_synonym PathSet = "string fset"

record 'r ProfileElementSource =
  originalRef :: 'r
  resolvedRef :: 'r
  attrPath :: string

record 'r ProfileElement =
  storePaths :: PathSet
  source :: "'r ProfileElementSource option"
  active :: bool

record 'r ProfileManifest =
  elements :: "'r ProfileElement list"

text \<open>\<^verbatim>\<open>Package(path, active, priority)\<close> of \<^verbatim>\<open>builtins/buildenv.hh\<close>, and \<^verbatim>\<open>Packages\<close>.\<close>

type_synonym Package = "Path \<times> bool \<times> int"

text \<open>The fields of \<^verbatim>\<open>ValidPathInfo\<close> and of \<^verbatim>\<open>DrvInfo\<close> that the file uses.\<close>

record ValidPathInfo =
  path :: Path
  narHash :: string
  narSize :: nat
  references :: PathSet
  ca :: string

record DrvInfo =
  drvPath :: Path
  outPath :: Path

text \<open>
  An installable of the command line. \<^verbatim>\<open>InstallableFlake\<close> carries its flake reference
  and attribute paths; any other installable is kept as the string \<^verbatim>\<open>what()\<close> returns.
\<close>

record 'r InstallableFlake =
  flakeRef :: 'r
  attrPaths :: "string list"

datatype 'r Installable =
    Installable_Flake "'r InstallableFlake"
  | Installable_Other string

subsection \<open>What the file calls and does not define\<close>

text \<open>
  Type \<open>'r\<close> is \<^verbatim>\<open>FlakeRef\<close>, \<open>'rx\<close> is \<^verbatim>\<open>std::regex\<close>, and \<open>'t\<close> is the content of the
  temporary directory of \<^verbatim>\<open>build\<close>.
  \<^item> \<open>FlakeRef\<close>: the constructor \<^verbatim>\<open>FlakeRef(const std::string &)\<close>; it throws on a string
    that is no flake reference. \<open>to_string\<close>, \<open>isImmutable\<close>: the member functions.
  \<^item> \<open>string2Int\<close>: \<^verbatim>\<open>string2Int<size_t>\<close>, \<open>Some n\<close> when it returns true and sets \<open>n\<close>.
  \<^item> \<open>isStorePath\<close>, \<open>buildPaths\<close> (\<open>Some\<close> the exception when it throws),
    \<open>makeFixedOutputPath\<close>: the store.
  \<^item> \<open>regex\<close>: \<^verbatim>\<open>std::regex(s, std::regex::extended | std::regex::icase)\<close>, which throws on
    an ill-formed expression; \<open>regex_match\<close>: \<^verbatim>\<open>std::regex_match\<close>.
  \<^item> \<open>toDerivation\<close>: \<^verbatim>\<open>InstallableFlake::toDerivation\<close>, returning attribute path,
    resolved reference and derivation, or throwing.
  \<^item> \<open>buildProfile\<close>: the directory that \<^verbatim>\<open>buildProfile(tempDir, pkgs)\<close> fills, or the
    exception it throws; \<open>writeFile\<close>, \<open>dumpPath\<close>, \<open>hashString\<close> (with \<^verbatim>\<open>htSHA256\<close>),
    \<open>makeDrvPathWithOutputs\<close>, \<open>makeFixedOutputCA\<close>.
\<close>

record ('r, 'rx, 't) externals =
  FlakeRef :: "string \<Rightarrow> error + 'r"
  to_string :: "'r \<Rightarrow> string"
  isImmutable :: "'r \<Rightarrow> bool"
  string2Int :: "string \<Rightarrow> nat option"
  isStorePath :: "string \<Rightarrow> bool"
  regex :: "string \<Rightarrow> error + 'rx"
  regex_match :: "string \<Rightarrow> 'rx \<Rightarrow> bool"
  toDerivation :: "'r InstallableFlake \<Rightarrow> error + (string \<times> 'r \<times> DrvInfo)"
  makeDrvPathWithOutputs :: "Path \<Rightarrow> string list \<Rightarrow> Path"
  buildPaths :: "PathSet \<Rightarrow> error option"
  buildProfile :: "Package list \<Rightarrow> error + 't"
  writeFile :: "'t \<Rightarrow> string \<Rightarrow> json \<Rightarrow> 't"
  dumpPath :: "'t \<Rightarrow> string"
  hashString :: "string \<Rightarrow> string"
  makeFixedOutputPath :: "bool \<Rightarrow> string \<Rightarrow> string \<Rightarrow> PathSet \<Rightarrow> Path"
  makeFixedOutputCA :: "bool \<Rightarrow> string \<Rightarrow> string"

text \<open>
  The calls with an effect outside the process, and the messages, in the order a command
  makes them.
\<close>

datatype 'r call =
    Activity_checking string
  | PrintInfo_upgrading string 'r 'r
  | PrintInfo_removed nat nat
  | BuildPaths PathSet
  | BuildProfile "Package list"
  | WriteFile string json
  | AddToStore ValidPathInfo string
  | UpdateProfile Path

subsection \<open>\<^verbatim>\<open>ProfileManifest(const Path & profile)\<close>\<close>

fun load_storePaths :: "json list \<Rightarrow> PathSet \<Rightarrow> error + PathSet" where
  "load_storePaths [] s = Inr s"
| "load_storePaths (p # ps) s =
     (case get_string p of
        Inl x \<Rightarrow> Inl x
      | Inr str \<Rightarrow> load_storePaths ps (finsert str s))"

definition load_source ::
  "('r, 'rx, 't) externals \<Rightarrow> json \<Rightarrow> error + 'r ProfileElementSource" where
  "load_source X e =
     (case json_at e ''originalUri'' of Inl x \<Rightarrow> Inl x | Inr jo \<Rightarrow>
      case get_string jo of Inl x \<Rightarrow> Inl x | Inr so \<Rightarrow>
      case FlakeRef X so of Inl x \<Rightarrow> Inl x | Inr orig \<Rightarrow>
      case json_at e ''uri'' of Inl x \<Rightarrow> Inl x | Inr ju \<Rightarrow>
      case get_string ju of Inl x \<Rightarrow> Inl x | Inr su \<Rightarrow>
      case FlakeRef X su of Inl x \<Rightarrow> Inl x | Inr res \<Rightarrow>
      case json_at e ''attrPath'' of Inl x \<Rightarrow> Inl x | Inr ja \<Rightarrow>
      case get_string ja of Inl x \<Rightarrow> Inl x | Inr ap \<Rightarrow>
        Inr \<lparr>originalRef = orig, resolvedRef = res, attrPath = ap\<rparr>)"

definition load_element ::
  "('r, 'rx, 't) externals \<Rightarrow> json \<Rightarrow> error + 'r ProfileElement" where
  "load_element X e =
     (case json_at e ''storePaths'' of Inl x \<Rightarrow> Inl x | Inr jp \<Rightarrow>
      case load_storePaths (json_items jp) {||} of Inl x \<Rightarrow> Inl x | Inr sp \<Rightarrow>
      case json_at e ''active'' of Inl x \<Rightarrow> Inl x | Inr ja \<Rightarrow>
      case get_bool ja of Inl x \<Rightarrow> Inl x | Inr act \<Rightarrow>
      case value_string e ''uri'' '''' of Inl x \<Rightarrow> Inl x | Inr uri \<Rightarrow>
        if uri \<noteq> '''' then
          (case load_source X e of
             Inl x \<Rightarrow> Inl x
           | Inr src \<Rightarrow> Inr \<lparr>storePaths = sp, source = Some src, active = act\<rparr>)
        else Inr \<lparr>storePaths = sp, source = None, active = act\<rparr>)"

fun load_elements ::
  "('r, 'rx, 't) externals \<Rightarrow> json list \<Rightarrow> 'r ProfileElement list \<Rightarrow>
   error + 'r ProfileElement list" where
  "load_elements X [] els = Inr els"
| "load_elements X (e # es) els =
     (case load_element X e of
        Inl x \<Rightarrow> Inl x
      | Inr element \<Rightarrow> load_elements X es (els @ [element]))"

text \<open>
  The argument \<open>file\<close> is the content of \<^verbatim>\<open>profile + "/manifest.json"\<close>: \<open>None\<close> when
  \<^verbatim>\<open>pathExists\<close> is false, the parsed file otherwise.
\<close>

definition load ::
  "('r, 'rx, 't) externals \<Rightarrow> json option \<Rightarrow> error + 'r ProfileManifest" where
  "load X file =
     (case file of
        None \<Rightarrow> Inr \<lparr>elements = []\<rparr>
      | Some json \<Rightarrow>
          (case value_int json ''version'' 0 of Inl x \<Rightarrow> Inl x | Inr version \<Rightarrow>
           if version \<noteq> 1 then Inl (UnsupportedVersion version)
           else
             (case json_at json ''elements'' of Inl x \<Rightarrow> Inl x | Inr je \<Rightarrow>
              case load_elements X (json_items je) [] of
                Inl x \<Rightarrow> Inl x
              | Inr els \<Rightarrow> Inr \<lparr>elements = els\<rparr>)))"

subsection \<open>\<^verbatim>\<open>ProfileManifest::toJSON\<close>\<close>

text \<open>The JSON value that \<^verbatim>\<open>toJSON\<close> dumps.\<close>

definition element_toJSON :: "('r, 'rx, 't) externals \<Rightarrow> 'r ProfileElement \<Rightarrow> json" where
  "element_toJSON X element =
     (let paths = JArray (map JString (sorted_list_of_fset (storePaths element)))
      in case source element of
           None \<Rightarrow> JObject [(''active'', JBool (active element)), (''storePaths'', paths)]
         | Some src \<Rightarrow>
             JObject
               [(''active'', JBool (active element)),
                (''attrPath'', JString (attrPath src)),
                (''originalUri'', JString (to_string X (originalRef src))),
                (''storePaths'', paths),
                (''uri'', JString (to_string X (resolvedRef src)))])"

definition toJSON :: "('r, 'rx, 't) externals \<Rightarrow> 'r ProfileManifest \<Rightarrow> json" where
  "toJSON X m =
     JObject
       [(''elements'', JArray (map (element_toJSON X) (elements m))),
        (''version'', JInt 1)]"

subsection \<open>\<^verbatim>\<open>ProfileManifest::build\<close>\<close>

text \<open>
  The two nested loops: the inner one runs over the store paths of one element, whose
  \<^verbatim>\<open>active\<close> flag is \<open>act\<close>; the state is \<^verbatim>\<open>pkgs\<close> and \<^verbatim>\<open>info.references\<close>.
\<close>

fun build_paths ::
  "bool \<Rightarrow> Path list \<Rightarrow> Package list \<times> PathSet \<Rightarrow> Package list \<times> PathSet" where
  "build_paths act [] st = st"
| "build_paths act (p # ps) (pkgs, refs) =
     build_paths act ps (if act then pkgs @ [(p, True, 5)] else pkgs, finsert p refs)"

fun build_elements ::
  "'r ProfileElement list \<Rightarrow> Package list \<times> PathSet \<Rightarrow> Package list \<times> PathSet" where
  "build_elements [] st = st"
| "build_elements (element # es) st =
     build_elements es
       (build_paths (active element) (sorted_list_of_fset (storePaths element)) st)"

definition build ::
  "('r, 'rx, 't) externals \<Rightarrow> 'r ProfileManifest \<Rightarrow> 'r call list \<times> (error + Path)" where
  "build X m =
     (case build_elements (elements m) ([], {||}) of (pkgs, refs) \<Rightarrow>
      case buildProfile X pkgs of
        Inl x \<Rightarrow> ([BuildProfile pkgs], Inl x)
      | Inr tempDir \<Rightarrow>
          (let manifest_json = toJSON X m;
               sink = dumpPath X (writeFile X tempDir ''manifest.json'' manifest_json);
               hash = hashString X sink;
               info = \<lparr>path = makeFixedOutputPath X True hash ''profile'' refs,
                       narHash = hash, narSize = length sink, references = refs,
                       ca = makeFixedOutputCA X True hash\<rparr>
           in ([BuildProfile pkgs, WriteFile ''manifest.json'' manifest_json,
                AddToStore info sink],
               Inr (path info))))"

subsection \<open>\<^verbatim>\<open>MixProfileElementMatchers\<close>\<close>

text \<open>\<^verbatim>\<open>std::variant<size_t, Path, std::regex>\<close>.\<close>

datatype 'rx Matcher =
    M_size_t nat
  | M_Path Path
  | M_regex 'rx

fun getMatchers_loop ::
  "('r, 'rx, 't) externals \<Rightarrow> string list \<Rightarrow> 'rx Matcher list \<Rightarrow> error + 'rx Matcher list" where
  "getMatchers_loop X [] res = Inr res"
| "getMatchers_loop X (s # ss) res =
     (case string2Int X s of
        Some n \<Rightarrow> getMatchers_loop X ss (res @ [M_size_t n])
      | None \<Rightarrow>
          if isStorePath X s then getMatchers_loop X ss (res @ [M_Path s])
          else
            (case regex X s of
               Inl x \<Rightarrow> Inl x
             | Inr r \<Rightarrow> getMatchers_loop X ss (res @ [M_regex r])))"

text \<open>The argument \<open>selectors\<close> is the member \<^verbatim>\<open>_matchers\<close>, the command's arguments.\<close>

definition getMatchers ::
  "('r, 'rx, 't) externals \<Rightarrow> string list \<Rightarrow> error + 'rx Matcher list" where
  "getMatchers X selectors = getMatchers_loop X selectors []"

fun matches ::
  "('r, 'rx, 't) externals \<Rightarrow> 'r ProfileElement \<Rightarrow> nat \<Rightarrow> 'rx Matcher list \<Rightarrow> bool" where
  "matches X element pos [] = False"
| "matches X element pos (matcher # ms) =
     (case matcher of
        M_size_t n \<Rightarrow> if n = pos then True else matches X element pos ms
      | M_Path p \<Rightarrow> if p |\<in>| storePaths element then True else matches X element pos ms
      | M_regex r \<Rightarrow>
          if (case source element of
                None \<Rightarrow> False
              | Some src \<Rightarrow> regex_match X (attrPath src) r)
          then True
          else matches X element pos ms)"

subsection \<open>\<^verbatim>\<open>CmdProfileInstall::run\<close>\<close>

text \<open>
  The loop over \<^verbatim>\<open>installables\<close>; its state is \<^verbatim>\<open>manifest\<close> and \<^verbatim>\<open>pathsToBuild\<close>. A new
  element keeps the default \<^verbatim>\<open>active = true\<close> of the struct.
\<close>

fun install_loop ::
  "('r, 'rx, 't) externals \<Rightarrow> 'r Installable list \<Rightarrow> 'r ProfileManifest \<Rightarrow> PathSet \<Rightarrow>
   error + 'r ProfileManifest \<times> PathSet" where
  "install_loop X [] manifest pathsToBuild = Inr (manifest, pathsToBuild)"
| "install_loop X (installable # rest) manifest pathsToBuild =
     (case installable of
        Installable_Flake installable2 \<Rightarrow>
          (case toDerivation X installable2 of
             Inl x \<Rightarrow> Inl x
           | Inr (attrPath', resolvedRef', drv) \<Rightarrow>
               install_loop X rest
                 (manifest\<lparr>elements := elements manifest @
                    [\<lparr>storePaths = {|outPath drv|},
                      source = Some \<lparr>originalRef = flakeRef installable2,
                                     resolvedRef = resolvedRef', attrPath = attrPath'\<rparr>,
                      active = True\<rparr>]\<rparr>)
                 (finsert (makeDrvPathWithOutputs X (drvPath drv) [''out'']) pathsToBuild))
      | Installable_Other what \<Rightarrow> Inl (UnsupportedInstallable what))"

text \<open>
  A command returns the calls it made and \<open>None\<close>, or the exception that ended it.
  \<open>profile\<close> is the content of the profile's \<^verbatim>\<open>manifest.json\<close>, as for \<open>load\<close>.
  The last statement of the three commands is \<^verbatim>\<open>updateProfile(manifest.build(store))\<close>;
  \<open>finish\<close> is this statement after the calls \<open>tr\<close>.
\<close>

definition finish ::
  "('r, 'rx, 't) externals \<Rightarrow> 'r call list \<Rightarrow> 'r ProfileManifest \<Rightarrow>
   'r call list \<times> error option" where
  "finish X tr m =
     (case build X m of
        (calls, Inl x) \<Rightarrow> (tr @ calls, Some x)
      | (calls, Inr p) \<Rightarrow> (tr @ calls @ [UpdateProfile p], None))"

definition run_install ::
  "('r, 'rx, 't) externals \<Rightarrow> json option \<Rightarrow> 'r Installable list \<Rightarrow>
   'r call list \<times> error option" where
  "run_install X profile installables =
     (case load X profile of
        Inl x \<Rightarrow> ([], Some x)
      | Inr manifest \<Rightarrow>
          (case install_loop X installables manifest {||} of
             Inl x \<Rightarrow> ([], Some x)
           | Inr (manifest', pathsToBuild) \<Rightarrow>
               (case buildPaths X pathsToBuild of
                  Some x \<Rightarrow> ([BuildPaths pathsToBuild], Some x)
                | None \<Rightarrow> finish X [BuildPaths pathsToBuild] manifest')))"

subsection \<open>\<^verbatim>\<open>CmdProfileRemove::run\<close>\<close>

function remove_loop ::
  "('r, 'rx, 't) externals \<Rightarrow> 'rx Matcher list \<Rightarrow> nat \<Rightarrow> 'r ProfileManifest \<Rightarrow>
   'r ProfileManifest \<Rightarrow> 'r ProfileManifest" where
  "remove_loop X matchers i oldManifest newManifest =
     (if i < length (elements oldManifest) then
        (let element = elements oldManifest ! i
         in remove_loop X matchers (Suc i) oldManifest
              (if \<not> matches X element i matchers
               then newManifest\<lparr>elements := elements newManifest @ [element]\<rparr>
               else newManifest))
      else newManifest)"
  by pat_completeness auto
termination
  by (relation "measure (\<lambda>(X, matchers, i, oldManifest, newManifest).
        length (elements oldManifest) - i)") auto

definition run_remove ::
  "('r, 'rx, 't) externals \<Rightarrow> json option \<Rightarrow> string list \<Rightarrow>
   'r call list \<times> error option" where
  "run_remove X profile selectors =
     (case load X profile of
        Inl x \<Rightarrow> ([], Some x)
      | Inr oldManifest \<Rightarrow>
          (case getMatchers X selectors of
             Inl x \<Rightarrow> ([], Some x)
           | Inr matchers \<Rightarrow>
               (let newManifest = remove_loop X matchers 0 oldManifest \<lparr>elements = []\<rparr>
                in finish X
                     [PrintInfo_removed
                        (length (elements oldManifest) - length (elements newManifest))
                        (length (elements newManifest))]
                     newManifest)))"

subsection \<open>\<^verbatim>\<open>CmdProfileUpgrade::run\<close>\<close>

text \<open>
  The body of the loop for the element at index \<open>i\<close>: the calls it makes, and either the
  exception of \<^verbatim>\<open>toDerivation\<close> or the element as the body leaves it together with what
  it inserts into \<^verbatim>\<open>pathsToBuild\<close>.
\<close>

definition upgrade_element ::
  "('r, 'rx, 't) externals \<Rightarrow> 'rx Matcher list \<Rightarrow> nat \<Rightarrow> 'r ProfileElement \<Rightarrow>
   'r call list \<times> (error + 'r ProfileElement \<times> PathSet)" where
  "upgrade_element X matchers i element =
     (case source element of
        None \<Rightarrow> ([], Inr (element, {||}))
      | Some src \<Rightarrow>
          if \<not> isImmutable X (originalRef src) \<and> matches X element i matchers then
            (case toDerivation X \<lparr>flakeRef = originalRef src, attrPaths = [attrPath src]\<rparr> of
               Inl x \<Rightarrow> ([Activity_checking (attrPath src)], Inl x)
             | Inr (attrPath', resolvedRef', drv) \<Rightarrow>
                 if resolvedRef src = resolvedRef' then
                   ([Activity_checking (attrPath src)], Inr (element, {||}))
                 else
                   ([Activity_checking (attrPath src),
                     PrintInfo_upgrading (attrPath src) (resolvedRef src) resolvedRef'],
                    Inr (element\<lparr>storePaths := {|outPath drv|},
                                 source := Some \<lparr>originalRef = originalRef src,
                                                 resolvedRef = resolvedRef',
                                                 attrPath = attrPath'\<rparr>\<rparr>,
                         {|makeDrvPathWithOutputs X (drvPath drv) [''out'']|})))
          else ([], Inr (element, {||})))"

function upgrade_loop ::
  "('r, 'rx, 't) externals \<Rightarrow> 'rx Matcher list \<Rightarrow> nat \<Rightarrow> 'r ProfileManifest \<Rightarrow>
   PathSet \<Rightarrow> 'r call list \<Rightarrow>
   'r call list \<times> (error + 'r ProfileManifest \<times> PathSet)" where
  "upgrade_loop X matchers i manifest pathsToBuild tr =
     (if i < length (elements manifest) then
        (case upgrade_element X matchers i (elements manifest ! i) of
           (calls, Inl x) \<Rightarrow> (tr @ calls, Inl x)
         | (calls, Inr (element', paths)) \<Rightarrow>
             upgrade_loop X matchers (Suc i)
               (manifest\<lparr>elements := (elements manifest)[i := element']\<rparr>)
               (paths |\<union>| pathsToBuild) (tr @ calls))
      else (tr, Inr (manifest, pathsToBuild)))"
  by pat_completeness auto
termination
  by (relation "measure (\<lambda>(X, matchers, i, manifest, pathsToBuild, tr).
        length (elements manifest) - i)") auto

definition run_upgrade ::
  "('r, 'rx, 't) externals \<Rightarrow> json option \<Rightarrow> string list \<Rightarrow>
   'r call list \<times> error option" where
  "run_upgrade X profile selectors =
     (case load X profile of
        Inl x \<Rightarrow> ([], Some x)
      | Inr manifest \<Rightarrow>
          (case getMatchers X selectors of
             Inl x \<Rightarrow> ([], Some x)
           | Inr matchers \<Rightarrow>
               (case upgrade_loop X matchers 0 manifest {||} [] of
                  (tr, Inl x) \<Rightarrow> (tr, Some x)
                | (tr, Inr (manifest', pathsToBuild)) \<Rightarrow>
                    (case buildPaths X pathsToBuild of
                       Some x \<Rightarrow> (tr @ [BuildPaths pathsToBuild], Some x)
                     | None \<Rightarrow> finish X (tr @ [BuildPaths pathsToBuild]) manifest'))))"

subsection \<open>An instance of the parameters\<close>

text \<open>
  A small instance of the record \<open>externals\<close>, on which the model is evaluated at concrete
  inputs. A flake reference is its text (the empty text is no reference, a text with a
  \<^verbatim>\<open>?\<close> is immutable), \<open>string2Int\<close> reads decimal digits, a store path starts with
  \<^verbatim>\<open>/nix/store/\<close>, a regular expression is its text and matches itself, \<^verbatim>\<open>.*\<close> matching
  everything, and \<open>toDerivation\<close> resolves a reference to its revision \<^verbatim>\<open>?rev=2\<close>.
\<close>

fun digits2nat :: "string \<Rightarrow> nat \<Rightarrow> nat option" where
  "digits2nat [] n = Some n"
| "digits2nat (c # cs) n =
     (if CHR ''0'' \<le> c \<and> c \<le> CHR ''9''
      then digits2nat cs (10 * n + (of_char c - of_char CHR ''0''))
      else None)"

definition example_toDerivation ::
  "string InstallableFlake \<Rightarrow> error + (string \<times> string \<times> DrvInfo)" where
  "example_toDerivation i =
     (case attrPaths i of
        [] \<Rightarrow> Inl (ResolutionFailure (flakeRef i))
      | a # _ \<Rightarrow>
          Inr (a, flakeRef i @ ''?rev=2'',
               \<lparr>drvPath = ''/nix/store/'' @ a @ ''-2.drv'', outPath = ''/nix/store/'' @ a @ ''-2''\<rparr>))"

definition example_externals ::
  "(string, string, Package list \<times> (string \<times> json) list) externals" where
  "example_externals =
     \<lparr>FlakeRef = (\<lambda>s. if s = '''' then Inl (BadFlakeRef s) else Inr s),
      to_string = (\<lambda>r. r),
      isImmutable = (\<lambda>r. CHR ''?'' \<in> set r),
      string2Int = (\<lambda>s. if s = '''' then None else digits2nat s 0),
      isStorePath = (\<lambda>s. take 11 s = ''/nix/store/''),
      regex = (\<lambda>s. if s = ''('' then Inl (RegexError s) else Inr s),
      regex_match = (\<lambda>s r. r = ''.*'' \<or> s = r),
      toDerivation = example_toDerivation,
      makeDrvPathWithOutputs = (\<lambda>p outs. p @ ''!'' @ concat outs),
      buildPaths = (\<lambda>paths. None),
      buildProfile = (\<lambda>pkgs. Inr (pkgs, [])),
      writeFile = (\<lambda>t name content. (fst t, snd t @ [(name, content)])),
      dumpPath = (\<lambda>t. ''nar''),
      hashString = (\<lambda>s. ''sha256-'' @ s),
      makeFixedOutputPath = (\<lambda>recursive h name refs. ''/nix/store/'' @ h @ ''-'' @ name),
      makeFixedOutputCA = (\<lambda>recursive h. ''fixed:r:'' @ h)\<rparr>"

text \<open>
  A profile of three elements: \<open>A\<close> and \<open>B\<close> without a source, \<open>B\<close> inactive, and \<open>C\<close>
  installed from the reference \<^verbatim>\<open>nixpkgs\<close> at revision 1.
\<close>

definition example_A :: "string ProfileElement" where
  "example_A = \<lparr>storePaths = {|''/nix/store/a''|}, source = None, active = True\<rparr>"

definition example_B :: "string ProfileElement" where
  "example_B = \<lparr>storePaths = {|''/nix/store/b''|}, source = None, active = False\<rparr>"

definition example_C :: "string ProfileElement" where
  "example_C =
     \<lparr>storePaths = {|''/nix/store/c''|},
      source = Some \<lparr>originalRef = ''nixpkgs'', resolvedRef = ''nixpkgs?rev=1'',
                     attrPath = ''hello''\<rparr>,
      active = True\<rparr>"

definition example_manifest :: "string ProfileManifest" where
  "example_manifest = \<lparr>elements = [example_A, example_B, example_C]\<rparr>"

definition example_profile :: "json option" where
  "example_profile = Some (toJSON example_externals example_manifest)"

section \<open>The manifest file\<close>

subsection \<open>Reading back a written manifest\<close>

lemma load_storePaths_strings:
  "load_storePaths (map JString xs) s = Inr (fset_of_list xs |\<union>| s)"
  by (induction xs arbitrary: s) (auto simp: get_string_def)

lemma load_storePaths_sorted:
  "load_storePaths (map JString (sorted_list_of_fset S)) {||} = Inr S"
  by (simp add: load_storePaths_strings)

lemma load_element_toJSON:
  assumes "\<forall>src. source e = Some src \<longrightarrow>
             FlakeRef X (to_string X (originalRef src)) = Inr (originalRef src) \<and>
             FlakeRef X (to_string X (resolvedRef src)) = Inr (resolvedRef src) \<and>
             to_string X (resolvedRef src) \<noteq> ''''"
  shows "load_element X (element_toJSON X e) = Inr e"
proof (cases "source e")
  case None
  then show ?thesis
    by (simp add: load_element_def element_toJSON_def json_at_def load_storePaths_sorted
        get_bool_def value_string_def)
next
  case (Some src)
  with assms have a: "FlakeRef X (to_string X (originalRef src)) = Inr (originalRef src)"
    "FlakeRef X (to_string X (resolvedRef src)) = Inr (resolvedRef src)"
    "to_string X (resolvedRef src) \<noteq> ''''"
    by auto
  have "load_source X (element_toJSON X e) = Inr src"
    using Some a by (simp add: load_source_def element_toJSON_def json_at_def get_string_def)
  then show ?thesis
    using Some a
    by (simp add: load_element_def element_toJSON_def json_at_def load_storePaths_sorted
        get_bool_def value_string_def get_string_def)
qed

lemma load_elements_toJSON:
  assumes "\<forall>e\<in>set es. load_element X (element_toJSON X e) = Inr e"
  shows "load_elements X (map (element_toJSON X) es) els = Inr (els @ es)"
  using assms by (induction es arbitrary: els) auto

lemma get_int_1: "get_int (JInt 1) = Inr 1"
  by (simp add: get_int_def)

text \<open>
  Claim C1. Loading the JSON value that \<open>toJSON\<close> writes for a manifest gives the manifest
  back: the same elements in the same order, with equal store paths, \<open>active\<close> flag and
  source. \<^verbatim>\<open>FlakeRef\<close> is not defined in the file; the theorem asks of it that every
  reference of the manifest is read back from its text, and that no resolved reference
  prints as the empty string (the loader takes an empty \<^verbatim>\<open>uri\<close> for an absent source).
  It holds for every manifest, so for those that install, remove and upgrade produce.
\<close>

theorem load_toJSON_roundtrip:
  assumes "\<forall>e\<in>set (elements m). \<forall>src. source e = Some src \<longrightarrow>
             FlakeRef X (to_string X (originalRef src)) = Inr (originalRef src) \<and>
             FlakeRef X (to_string X (resolvedRef src)) = Inr (resolvedRef src) \<and>
             to_string X (resolvedRef src) \<noteq> ''''"
  shows "load X (Some (toJSON X m)) = Inr m"
proof -
  have "\<forall>e\<in>set (elements m). load_element X (element_toJSON X e) = Inr e"
    using assms by (auto intro!: load_element_toJSON)
  then have "load_elements X (map (element_toJSON X) (elements m)) [] = Inr (elements m)"
    using load_elements_toJSON[of "elements m" X "[]"] by simp
  then show ?thesis
    by (simp add: load_def toJSON_def value_int_def get_int_1 json_at_def)
qed

theorem load_toJSON_roundtrip_witness:
  "load example_externals
     (Some (toJSON example_externals
        \<lparr>elements =
           [\<lparr>storePaths = {|''/nix/store/b-hello'', ''/nix/store/a-hello-dev''|},
             source = Some \<lparr>originalRef = ''nixpkgs'', resolvedRef = ''nixpkgs?rev=1'',
                            attrPath = ''hello''\<rparr>,
             active = True\<rparr>,
            \<lparr>storePaths = {|''/nix/store/c-old''|}, source = None, active = False\<rparr>]\<rparr>)) =
   Inr \<lparr>elements =
           [\<lparr>storePaths = {|''/nix/store/b-hello'', ''/nix/store/a-hello-dev''|},
             source = Some \<lparr>originalRef = ''nixpkgs'', resolvedRef = ''nixpkgs?rev=1'',
                            attrPath = ''hello''\<rparr>,
             active = True\<rparr>,
            \<lparr>storePaths = {|''/nix/store/c-old''|}, source = None, active = False\<rparr>]\<rparr>"
  by (rule load_toJSON_roundtrip) (simp add: example_externals_def)

subsection \<open>The version gate\<close>

lemma sint32_id:
  "- (2 ^ 31) \<le> v \<Longrightarrow> v < 2 ^ 31 \<Longrightarrow> sint (word_of_int v :: 32 word) = v"
  by (simp add: sint_sbintrunc' signed_take_bit_int_eq_self)

text \<open>
  Claim C2, as stated, fails: a manifest file whose \<^verbatim>\<open>version\<close> is the string \<^verbatim>\<open>"2"\<close> has
  a stored version other than 1, and \<open>load\<close> ends with the JSON library's type error, not
  with the unsupported-version error.
\<close>

theorem load_version_string_counterexample:
  "load example_externals
     (Some (JObject [(''elements'', JArray []), (''version'', JString ''2'')])) =
   Inl JsonTypeError"
  by (simp add: load_def value_int_def get_int_def)

text \<open>
  Claim C2, amended. Without a manifest file \<open>load\<close> returns the empty manifest. For a
  manifest file that is a JSON object, whatever else it holds: \<open>load\<close> fails with the
  unsupported-version error when the object has no \<^verbatim>\<open>version\<close> member (the version
  reported is 0) and when the member is an integer other than 1 in the range of \<^verbatim>\<open>int\<close>;
  it fails with the JSON type error when the member is a string.
\<close>

theorem load_version_gate:
  "load X None = Inr \<lparr>elements = []\<rparr> \<and>
   (\<forall>kvs. map_of kvs ''version'' = None \<longrightarrow>
      load X (Some (JObject kvs)) = Inl (UnsupportedVersion 0)) \<and>
   (\<forall>kvs v. map_of kvs ''version'' = Some (JInt v) \<longrightarrow>
      - (2 ^ 31) \<le> v \<longrightarrow> v < 2 ^ 31 \<longrightarrow> v \<noteq> 1 \<longrightarrow>
      load X (Some (JObject kvs)) = Inl (UnsupportedVersion v)) \<and>
   (\<forall>kvs s. map_of kvs ''version'' = Some (JString s) \<longrightarrow>
      load X (Some (JObject kvs)) = Inl JsonTypeError)"
  by (simp add: load_def value_int_def get_int_def sint32_id)

theorem load_version_gate_witness:
  "load example_externals None = Inr \<lparr>elements = []\<rparr> \<and>
   load example_externals (Some (JObject [(''elements'', JArray [])])) =
     Inl (UnsupportedVersion 0) \<and>
   load example_externals (Some (JObject [(''elements'', JArray []), (''version'', JInt 2)])) =
     Inl (UnsupportedVersion 2) \<and>
   load example_externals (Some (JObject [(''version'', JString ''1'')])) = Inl JsonTypeError"
  using load_version_gate[of example_externals] by simp

text \<open>
  The version is read as an \<^verbatim>\<open>int\<close>: a stored integer outside its range is reduced
  modulo \<open>2 ^ 32\<close> before the comparison with 1.
\<close>

lemma load_version_wraps:
  "load example_externals (Some (JObject [(''version'', JInt 4294967297)])) =
   Inr \<lparr>elements = []\<rparr>"
  by (simp add: load_def value_int_def get_int_def json_at_def)

subsection \<open>Elements without an \<^verbatim>\<open>active\<close> member\<close>

lemma load_elements_fails:
  "e \<in> set es \<Longrightarrow> load_element X e = Inl x \<Longrightarrow> \<exists>y. load_elements X es els = Inl y"
  by (induction es arbitrary: els) (auto split: sum.splits)

lemma load_element_no_active:
  "map_of kvs ''active'' = None \<Longrightarrow> \<exists>x. load_element X (JObject kvs) = Inl x"
  by (simp add: load_element_def json_at_def get_bool_def split: sum.splits)

lemma load_element_without_source:
  assumes "map_of kvs ''storePaths'' = Some (JArray (map JString ps)) \<or>
           map_of kvs ''storePaths'' = None \<and> ps = []"
    and "map_of kvs ''active'' = Some (JBool a)"
    and "map_of kvs ''uri'' = None"
  shows "load_element X (JObject kvs) =
           Inr \<lparr>storePaths = fset_of_list ps, source = None, active = a\<rparr>"
  using assms
  by (auto simp: load_element_def json_at_def load_storePaths_strings get_bool_def
      value_string_def)

lemma load_elements_without_source:
  assumes "list_all2 (\<lambda>kvs (ps, a).
             (map_of kvs ''storePaths'' = Some (JArray (map JString ps)) \<or>
              map_of kvs ''storePaths'' = None \<and> ps = []) \<and>
             map_of kvs ''active'' = Some (JBool a) \<and>
             map_of kvs ''uri'' = None) kvss rows"
  shows "load_elements X (map JObject kvss) els =
           Inr (els @ map (\<lambda>(ps, a). \<lparr>storePaths = fset_of_list ps, source = None,
                                       active = a\<rparr>) rows)"
  using assms
proof (induction kvss arbitrary: rows els)
  case Nil
  then show ?case by simp
next
  case (Cons kvs kvss)
  from Cons.prems obtain ps a rows' where rows: "rows = (ps, a) # rows'"
    and h: "map_of kvs ''storePaths'' = Some (JArray (map JString ps)) \<or>
            map_of kvs ''storePaths'' = None \<and> ps = []"
      "map_of kvs ''active'' = Some (JBool a)" "map_of kvs ''uri'' = None"
    and rest: "list_all2 (\<lambda>kvs (ps, a).
             (map_of kvs ''storePaths'' = Some (JArray (map JString ps)) \<or>
              map_of kvs ''storePaths'' = None \<and> ps = []) \<and>
             map_of kvs ''active'' = Some (JBool a) \<and>
             map_of kvs ''uri'' = None) kvss rows'"
    by (auto simp: list_all2_Cons1)
  show ?case
    by (simp add: rows load_element_without_source[OF h] Cons.IH[OF rest])
qed

text \<open>
  Claim C10, as stated, fails: what \<open>load\<close> tolerates is not only the absence of the
  provenance members. A file of version 1 whose single element has an \<^verbatim>\<open>active\<close> flag and
  no \<^verbatim>\<open>storePaths\<close> member is loaded, the element having no store path.
\<close>

theorem load_missing_storePaths_counterexample:
  "load example_externals
     (Some (JObject
        [(''elements'', JArray [JObject [(''active'', JBool True)]]), (''version'', JInt 1)])) =
   Inr \<lparr>elements = [\<lparr>storePaths = {||}, source = None, active = True\<rparr>]\<rparr>"
  by (simp add: load_def value_int_def get_int_def json_at_def load_element_def get_bool_def
      value_string_def)

text \<open>
  Claim C10, amended. A manifest file of version 1 whose \<^verbatim>\<open>elements\<close> array holds an object
  without an \<^verbatim>\<open>active\<close> member makes \<open>load\<close> fail: the flag has no default. A file of
  version 1 whose elements are objects with a boolean \<^verbatim>\<open>active\<close>, without the member
  \<^verbatim>\<open>uri\<close>, and with \<^verbatim>\<open>storePaths\<close> an array of strings or absent, is loaded: each
  element has its source absent, and an absent \<^verbatim>\<open>storePaths\<close> reads as the empty set. A file
  of version 1 without the member \<^verbatim>\<open>elements\<close> is loaded as the empty manifest.
\<close>

theorem load_missing_fields:
  "(\<forall>json es kvs. value_int json ''version'' 0 = Inr 1 \<longrightarrow>
      json_at json ''elements'' = Inr (JArray es) \<longrightarrow>
      JObject kvs \<in> set es \<longrightarrow> map_of kvs ''active'' = None \<longrightarrow>
      (\<exists>x. load X (Some json) = Inl x)) \<and>
   (\<forall>json kvss rows. value_int json ''version'' 0 = Inr 1 \<longrightarrow>
      json_at json ''elements'' = Inr (JArray (map JObject kvss)) \<longrightarrow>
      list_all2 (\<lambda>kvs (ps, a).
         (map_of kvs ''storePaths'' = Some (JArray (map JString ps)) \<or>
          map_of kvs ''storePaths'' = None \<and> ps = []) \<and>
         map_of kvs ''active'' = Some (JBool a) \<and>
         map_of kvs ''uri'' = None) kvss rows \<longrightarrow>
      load X (Some json) =
        Inr \<lparr>elements = map (\<lambda>(ps, a). \<lparr>storePaths = fset_of_list ps, source = None,
                                         active = a\<rparr>) rows\<rparr>) \<and>
   (\<forall>kvs. map_of kvs ''version'' = Some (JInt 1) \<longrightarrow> map_of kvs ''elements'' = None \<longrightarrow>
      load X (Some (JObject kvs)) = Inr \<lparr>elements = []\<rparr>)"
proof (intro conjI allI impI)
  fix json es kvs
  assume v: "value_int json ''version'' 0 = Inr 1"
    and e: "json_at json ''elements'' = Inr (JArray es)"
    and m: "JObject kvs \<in> set es"
    and a: "map_of kvs ''active'' = None"
  from load_element_no_active[OF a] obtain x where "load_element X (JObject kvs) = Inl x"
    by blast
  from load_elements_fails[OF m this] obtain y where "load_elements X es [] = Inl y"
    by blast
  then show "\<exists>x. load X (Some json) = Inl x"
    using v e by (simp add: load_def)
next
  fix json kvss rows
  assume v: "value_int json ''version'' 0 = Inr 1"
    and e: "json_at json ''elements'' = Inr (JArray (map JObject kvss))"
    and r: "list_all2 (\<lambda>kvs (ps, a).
         (map_of kvs ''storePaths'' = Some (JArray (map JString ps)) \<or>
          map_of kvs ''storePaths'' = None \<and> ps = []) \<and>
         map_of kvs ''active'' = Some (JBool a) \<and>
         map_of kvs ''uri'' = None) kvss rows"
  show "load X (Some json) =
        Inr \<lparr>elements = map (\<lambda>(ps, a). \<lparr>storePaths = fset_of_list ps, source = None,
                                         active = a\<rparr>) rows\<rparr>"
    using v e by (simp add: load_def load_elements_without_source[OF r])
next
  fix kvs
  assume "map_of kvs ''version'' = Some (JInt 1)" and "map_of kvs ''elements'' = None"
  then show "load X (Some (JObject kvs)) = Inr \<lparr>elements = []\<rparr>"
    by (simp add: load_def value_int_def get_int_def json_at_def)
qed

theorem load_missing_fields_witness:
  "(\<exists>x. load example_externals
      (Some (JObject
         [(''elements'', JArray [JObject [(''storePaths'', JArray [JString ''/nix/store/a''])]]),
          (''version'', JInt 1)])) = Inl x) \<and>
   load example_externals
     (Some (JObject
        [(''elements'',
          JArray
            [JObject [(''active'', JBool False),
                      (''storePaths'', JArray [JString ''/nix/store/a''])],
             JObject [(''active'', JBool True)]]),
         (''version'', JInt 1)])) =
     Inr \<lparr>elements =
            [\<lparr>storePaths = {|''/nix/store/a''|}, source = None, active = False\<rparr>,
             \<lparr>storePaths = {||}, source = None, active = True\<rparr>]\<rparr> \<and>
   load example_externals (Some (JObject [(''version'', JInt 1)])) = Inr \<lparr>elements = []\<rparr>"
proof -
  note t = load_missing_fields[of example_externals]
  let ?bad = "JObject
         [(''elements'', JArray [JObject [(''storePaths'', JArray [JString ''/nix/store/a''])]]),
          (''version'', JInt 1)]"
  let ?good = "JObject
        [(''elements'',
          JArray
            [JObject [(''active'', JBool False),
                      (''storePaths'', JArray [JString ''/nix/store/a''])],
             JObject [(''active'', JBool True)]]),
         (''version'', JInt 1)]"
  have v: "value_int ?bad ''version'' 0 = Inr 1"
    by (simp add: value_int_def get_int_def)
  have e: "json_at ?bad ''elements'' =
      Inr (JArray [JObject [(''storePaths'', JArray [JString ''/nix/store/a''])]])"
    by (simp add: json_at_def)
  have 1: "\<exists>x. load example_externals (Some ?bad) = Inl x"
    using t[THEN conjunct1] v e by simp
  have v2: "value_int ?good ''version'' 0 = Inr 1"
    by (simp add: value_int_def get_int_def)
  have e2: "json_at ?good ''elements'' =
      Inr (JArray (map JObject
        [[(''active'', JBool False), (''storePaths'', JArray [JString ''/nix/store/a''])],
         [(''active'', JBool True)]]))"
    by (simp add: json_at_def)
  have 2: "load example_externals (Some ?good) =
     Inr \<lparr>elements =
            [\<lparr>storePaths = {|''/nix/store/a''|}, source = None, active = False\<rparr>,
             \<lparr>storePaths = {||}, source = None, active = True\<rparr>]\<rparr>"
    using t[THEN conjunct2, THEN conjunct1, rule_format, OF v2 e2,
        of "[([''/nix/store/a''], False), ([], True)]"]
    by simp
  have 3: "load example_externals (Some (JObject [(''version'', JInt 1)])) =
      Inr \<lparr>elements = []\<rparr>"
    using t[THEN conjunct2, THEN conjunct2, rule_format, of "[(''version'', JInt 1)]"]
    by simp
  from 1 2 3 show ?thesis by blast
qed

section \<open>Selecting elements\<close>

lemma getMatchers_loop_spec:
  "getMatchers_loop X ss res = Inr ms \<longleftrightarrow>
     (\<exists>ms'. ms = res @ ms' \<and>
        list_all2 (\<lambda>s m. case string2Int X s of
                     Some n \<Rightarrow> m = M_size_t n
                   | None \<Rightarrow> if isStorePath X s then m = M_Path s
                             else (\<exists>r. regex X s = Inr r \<and> m = M_regex r)) ss ms')"
proof (induction ss arbitrary: res)
  case Nil
  then show ?case by auto
next
  case (Cons s ss)
  show ?case
  proof (cases "string2Int X s")
    case (Some n)
    then show ?thesis
      by (auto simp: Cons.IH list_all2_Cons1)
  next
    case None
    show ?thesis
    proof (cases "isStorePath X s")
      case True
      with None show ?thesis by (auto simp: Cons.IH list_all2_Cons1)
    next
      case False
      with None show ?thesis
        by (cases "regex X s") (auto simp: Cons.IH list_all2_Cons1)
    qed
  qed
qed

text \<open>
  Claim C3. \<open>getMatchers\<close> returns the list \<open>ms\<close> exactly when \<open>ms\<close> has one matcher for each
  selector, in order, of the kind that this priority gives: the positional matcher
  \<open>n\<close> when \<open>string2Int\<close> reads the selector as \<open>n\<close>; otherwise the path matcher of the
  selector when the store takes it for a store path; otherwise the pattern matcher that
  \<^verbatim>\<open>std::regex\<close> builds from it (extended, case-insensitive). So a selector read as an integer
  is never a path or a pattern matcher, and one that is a store path is never a pattern.
\<close>

theorem getMatchers_classification:
  "getMatchers X selectors = Inr ms \<longleftrightarrow>
     list_all2 (\<lambda>s m. case string2Int X s of
                  Some n \<Rightarrow> m = M_size_t n
                | None \<Rightarrow> if isStorePath X s then m = M_Path s
                          else (\<exists>r. regex X s = Inr r \<and> m = M_regex r)) selectors ms"
  by (simp add: getMatchers_def getMatchers_loop_spec)

theorem getMatchers_classification_witness:
  "getMatchers example_externals [''1'', ''/nix/store/abc-hello'', ''packages.*'', ''/nix/store/7''] =
   Inr [M_size_t 1, M_Path ''/nix/store/abc-hello'', M_regex ''packages.*'',
        M_Path ''/nix/store/7'']"
  by (simp add: getMatchers_classification) (simp add: example_externals_def)

text \<open>
  Claim C4. \<open>matches\<close> is true exactly when some matcher of the list matches: a positional
  matcher when its number is \<open>pos\<close>, a path matcher when the element's store paths contain
  the path, a pattern matcher when the element has a source and \<^verbatim>\<open>std::regex_match\<close> (the
  match of the whole string) accepts its attribute path. With no matcher it is false.
\<close>

theorem matches_any:
  "(matches X element pos ms \<longleftrightarrow>
      (\<exists>m\<in>set ms. case m of
          M_size_t n \<Rightarrow> n = pos
        | M_Path p \<Rightarrow> p |\<in>| storePaths element
        | M_regex r \<Rightarrow>
            (\<exists>src. source element = Some src \<and> regex_match X (attrPath src) r))) \<and>
   \<not> matches X element pos []"
  by (induction ms) (auto split: Matcher.splits option.splits)

theorem matches_any_witness:
  "matches example_externals
     \<lparr>storePaths = {|''/nix/store/c''|},
      source = Some \<lparr>originalRef = ''nixpkgs'', resolvedRef = ''nixpkgs?rev=1'',
                     attrPath = ''hello''\<rparr>,
      active = True\<rparr> 2 [M_size_t 1, M_Path ''/nix/store/a'', M_regex ''hello''] \<and>
   \<not> matches example_externals
     \<lparr>storePaths = {|''/nix/store/c''|},
      source = Some \<lparr>originalRef = ''nixpkgs'', resolvedRef = ''nixpkgs?rev=1'',
                     attrPath = ''hello''\<rparr>,
      active = True\<rparr> 2 [M_size_t 1, M_Path ''/nix/store/a'', M_regex ''hell'']"
  by (simp only: matches_any) (simp add: example_externals_def)

section \<open>Building the profile\<close>

lemma build_paths_spec:
  "build_paths act ps (pkgs, refs) =
     (pkgs @ (if act then map (\<lambda>p. (p, True, 5)) ps else []), fset_of_list ps |\<union>| refs)"
  by (induction ps arbitrary: pkgs refs) auto

lemma build_elements_spec:
  "build_elements es (pkgs, refs) =
     (pkgs @ concat (map (\<lambda>e. if active e
                               then map (\<lambda>p. (p, True, 5)) (sorted_list_of_fset (storePaths e))
                               else []) es),
      ffUnion (fset_of_list (map storePaths es)) |\<union>| refs)"
  by (induction es arbitrary: pkgs refs) (auto simp: build_paths_spec)

lemma build_cases:
  "build X m =
     (case buildProfile X (fst (build_elements (elements m) ([], {||}))) of
        Inl x \<Rightarrow> ([BuildProfile (fst (build_elements (elements m) ([], {||})))], Inl x)
      | Inr t \<Rightarrow>
          ([BuildProfile (fst (build_elements (elements m) ([], {||}))),
            WriteFile ''manifest.json'' (toJSON X m),
            AddToStore
              \<lparr>path = makeFixedOutputPath X True
                        (hashString X (dumpPath X (writeFile X t ''manifest.json'' (toJSON X m))))
                        ''profile'' (snd (build_elements (elements m) ([], {||}))),
               narHash = hashString X (dumpPath X (writeFile X t ''manifest.json'' (toJSON X m))),
               narSize = length (dumpPath X (writeFile X t ''manifest.json'' (toJSON X m))),
               references = snd (build_elements (elements m) ([], {||})),
               ca = makeFixedOutputCA X True
                      (hashString X (dumpPath X (writeFile X t ''manifest.json'' (toJSON X m))))\<rparr>
              (dumpPath X (writeFile X t ''manifest.json'' (toJSON X m)))],
           Inr (makeFixedOutputPath X True
                  (hashString X (dumpPath X (writeFile X t ''manifest.json'' (toJSON X m))))
                  ''profile'' (snd (build_elements (elements m) ([], {||}))))))"
  by (simp add: build_def Let_def split: prod.splits sum.splits)

lemma pkgs_set:
  "set (concat (map (\<lambda>e. if active e
                          then map (\<lambda>p. (p, True, 5)) (sorted_list_of_fset (storePaths e))
                          else []) es)) =
   {(p, True, 5) | p e. e \<in> set es \<and> active e \<and> p |\<in>| storePaths e}"
  by (auto split: if_splits)

lemma refs_set:
  "fset (ffUnion (fset_of_list (map storePaths es))) = (\<Union>e\<in>set es. fset (storePaths e))"
  by (induction es) auto

text \<open>
  Claim C6. \<open>build\<close> hands to \<^verbatim>\<open>buildProfile\<close> one package, with the flag \<open>True\<close> and the
  priority 5, for each store path of each element whose \<open>active\<close> flag is set, element by
  element, and nothing for the other elements. When \<^verbatim>\<open>buildProfile\<close> returns, the object
  added to the store has as references the store paths of all elements, active or not, and
  its path is computed from these references.
\<close>

theorem build_packages_and_references:
  "\<exists>pkgs calls.
     fst (build X m) = BuildProfile pkgs # calls \<and>
     pkgs = concat (map (\<lambda>e. if active e
                             then map (\<lambda>p. (p, True, 5)) (sorted_list_of_fset (storePaths e))
                             else []) (elements m)) \<and>
     set pkgs = {(p, True, 5) | p e. e \<in> set (elements m) \<and> active e \<and> p |\<in>| storePaths e} \<and>
     (case buildProfile X pkgs of
        Inl x \<Rightarrow> calls = [] \<and> snd (build X m) = Inl x
      | Inr t \<Rightarrow>
          (\<exists>info sink.
             calls = [WriteFile ''manifest.json'' (toJSON X m), AddToStore info sink] \<and>
             snd (build X m) = Inr (path info) \<and>
             path info = makeFixedOutputPath X True (narHash info) ''profile'' (references info) \<and>
             fset (references info) = (\<Union>e\<in>set (elements m). fset (storePaths e))))"
proof -
  let ?pkgs = "concat (map (\<lambda>e. if active e
                             then map (\<lambda>p. (p, True, 5)) (sorted_list_of_fset (storePaths e))
                             else []) (elements m))"
  let ?refs = "ffUnion (fset_of_list (map storePaths (elements m)))"
  have be: "build_elements (elements m) ([], {||}) = (?pkgs, ?refs)"
    by (simp add: build_elements_spec)
  have s: "set ?pkgs =
      {(p, True, 5) | p e. e \<in> set (elements m) \<and> active e \<and> p |\<in>| storePaths e}"
    by (rule pkgs_set)
  have r: "fset ?refs = (\<Union>e\<in>set (elements m). fset (storePaths e))"
    by (rule refs_set)
  show ?thesis
  proof (cases "buildProfile X ?pkgs")
    case (Inl x)
    then have b: "build X m = ([BuildProfile ?pkgs], Inl x)"
      unfolding build_cases be by simp
    show ?thesis
      apply (rule exI[of _ ?pkgs], rule exI[of _ "[]"])
      apply (intro conjI)
         apply (simp only: b fst_conv)
        apply (rule refl)
       apply (rule s)
      apply (simp only: Inl sum.case b snd_conv simp_thms)
      done
  next
    case (Inr t)
    let ?sink = "dumpPath X (writeFile X t ''manifest.json'' (toJSON X m))"
    let ?info = "\<lparr>path = makeFixedOutputPath X True (hashString X ?sink) ''profile'' ?refs,
                  narHash = hashString X ?sink, narSize = length ?sink, references = ?refs,
                  ca = makeFixedOutputCA X True (hashString X ?sink)\<rparr>"
    from Inr have b: "build X m =
        ([BuildProfile ?pkgs, WriteFile ''manifest.json'' (toJSON X m), AddToStore ?info ?sink],
         Inr (path ?info))"
      unfolding build_cases be by simp
    have c: "\<exists>info sink.
        [WriteFile ''manifest.json'' (toJSON X m), AddToStore ?info ?sink] =
          [WriteFile ''manifest.json'' (toJSON X m), AddToStore info sink] \<and>
        snd (build X m) = Inr (path info) \<and>
        path info = makeFixedOutputPath X True (narHash info) ''profile'' (references info) \<and>
        fset (references info) = (\<Union>e\<in>set (elements m). fset (storePaths e))"
      apply (rule exI[of _ ?info], rule exI[of _ ?sink])
      apply (intro conjI)
         apply (rule refl)
        apply (simp only: b snd_conv)
       apply simp
      apply (simp only: ValidPathInfo.simps r)
      done
    show ?thesis
      apply (rule exI[of _ ?pkgs],
          rule exI[of _ "[WriteFile ''manifest.json'' (toJSON X m), AddToStore ?info ?sink]"])
      apply (intro conjI)
         apply (simp only: b fst_conv)
        apply (rule refl)
       apply (rule s)
      apply (simp only: Inr sum.case)
      apply (rule c)
      done
  qed
qed


theorem build_packages_and_references_witness:
  "\<exists>info sink.
     build example_externals example_manifest =
       ([BuildProfile [(''/nix/store/a'', True, 5), (''/nix/store/c'', True, 5)],
         WriteFile ''manifest.json'' (toJSON example_externals example_manifest),
         AddToStore info sink], Inr (path info)) \<and>
     fset (references info) = {''/nix/store/a'', ''/nix/store/b'', ''/nix/store/c''}"
proof -
  have p: "concat (map (\<lambda>e. if active e
                             then map (\<lambda>p. (p, True, 5::int)) (sorted_list_of_fset (storePaths e))
                             else []) (elements example_manifest)) =
      [(''/nix/store/a'', True, 5), (''/nix/store/c'', True, 5)]"
    by code_simp
  have b: "buildProfile example_externals [(''/nix/store/a'', True, 5), (''/nix/store/c'', True, 5)] =
      Inr ([(''/nix/store/a'', True, 5), (''/nix/store/c'', True, 5)], [])"
    by (simp add: example_externals_def)
  have r: "(\<Union>e\<in>set (elements example_manifest). fset (storePaths e)) =
      {''/nix/store/a'', ''/nix/store/b'', ''/nix/store/c''}"
    by (auto simp: example_manifest_def example_A_def example_B_def example_C_def)
  from build_packages_and_references[of example_externals example_manifest] show ?thesis
    unfolding p r by (auto simp: b prod_eq_iff)
qed

section \<open>The commands\<close>

declare remove_loop.simps [simp del]
declare upgrade_loop.simps [simp del]

lemma finish_cases:
  "\<exists>calls res.
     finish X tr m =
       (tr @ BuildProfile
          (concat (map (\<lambda>e. if active e
                             then map (\<lambda>p. (p, True, 5)) (sorted_list_of_fset (storePaths e))
                             else []) (elements m))) # calls, res) \<and>
     (case buildProfile X
             (concat (map (\<lambda>e. if active e
                             then map (\<lambda>p. (p, True, 5)) (sorted_list_of_fset (storePaths e))
                             else []) (elements m))) of
        Inl x \<Rightarrow> calls = [] \<and> res = Some x
      | Inr t \<Rightarrow>
          (\<exists>info sink.
             calls = [WriteFile ''manifest.json'' (toJSON X m), AddToStore info sink,
                      UpdateProfile (path info)] \<and>
             res = None))"
proof -
  let ?pkgs = "concat (map (\<lambda>e. if active e
                             then map (\<lambda>p. (p, True, 5)) (sorted_list_of_fset (storePaths e))
                             else []) (elements m))"
  have be: "fst (build_elements (elements m) ([], {||})) = ?pkgs"
    by (simp add: build_elements_spec)
  show ?thesis
  proof (cases "buildProfile X ?pkgs")
    case (Inl x)
    then have "finish X tr m = (tr @ [BuildProfile ?pkgs], Some x)"
      unfolding finish_def build_cases be by simp
    with Inl show ?thesis by simp
  next
    case (Inr t)
    then have "\<exists>info sink. finish X tr m =
        (tr @ [BuildProfile ?pkgs, WriteFile ''manifest.json'' (toJSON X m),
               AddToStore info sink, UpdateProfile (path info)], None)"
      unfolding finish_def build_cases be
      by simp
    with Inr show ?thesis by auto
  qed
qed

lemma remove_loop_spec:
  "remove_loop X ms i old new =
     new\<lparr>elements := elements new @
        map snd (filter (\<lambda>(j, e). \<not> matches X e j ms) (enumerate i (drop i (elements old))))\<rparr>"
proof (induction X ms i old new rule: remove_loop.induct)
  case (1 X ms i old new)
  show ?case
  proof (cases "i < length (elements old)")
    case True
    then have d: "drop i (elements old) = elements old ! i # drop (Suc i) (elements old)"
      by (simp add: Cons_nth_drop_Suc)
    show ?thesis
      using True "1.IH"[OF True refl]
      by (subst remove_loop.simps) (simp add: d Let_def)
  next
    case False
    then show ?thesis
      by (subst remove_loop.simps) simp
  qed
qed

text \<open>
  Claim C5. When the manifest loads and the selectors give matchers, \<open>remove\<close> keeps exactly
  the elements that no matcher matches at their index in the loaded manifest, in their
  order. It prints the number removed (old size minus new size) and the number kept, then
  builds the new manifest, whatever these numbers are, and publishes the path that the
  build returns; it ends with the exception of \<^verbatim>\<open>buildProfile\<close> when that throws.
\<close>

theorem run_remove_filters:
  assumes "load X profile = Inr oldManifest"
    and "getMatchers X selectors = Inr matchers"
  defines "kept \<equiv> map snd (filter (\<lambda>(i, e). \<not> matches X e i matchers)
                              (enumerate 0 (elements oldManifest)))"
  shows "remove_loop X matchers 0 oldManifest \<lparr>elements = []\<rparr> = \<lparr>elements = kept\<rparr> \<and>
    (\<exists>pkgs calls res.
       run_remove X profile selectors =
         (PrintInfo_removed (length (elements oldManifest) - length kept) (length kept) #
          BuildProfile pkgs # calls, res) \<and>
       pkgs = concat (map (\<lambda>e. if active e
                             then map (\<lambda>p. (p, True, 5)) (sorted_list_of_fset (storePaths e))
                             else []) kept) \<and>
       (case buildProfile X pkgs of
          Inl x \<Rightarrow> calls = [] \<and> res = Some x
        | Inr t \<Rightarrow>
            (\<exists>info sink.
               calls = [WriteFile ''manifest.json'' (toJSON X \<lparr>elements = kept\<rparr>),
                        AddToStore info sink, UpdateProfile (path info)] \<and>
               res = None)))"
proof -
  have l: "remove_loop X matchers 0 oldManifest \<lparr>elements = []\<rparr> = \<lparr>elements = kept\<rparr>"
    by (simp add: remove_loop_spec kept_def)
  have r: "run_remove X profile selectors =
      finish X [PrintInfo_removed (length (elements oldManifest) - length kept) (length kept)]
        \<lparr>elements = kept\<rparr>"
    using assms(1,2) by (simp add: run_remove_def l Let_def)
  from finish_cases[of X
      "[PrintInfo_removed (length (elements oldManifest) - length kept) (length kept)]"
      "\<lparr>elements = kept\<rparr>"]
  show ?thesis
    unfolding r using l by simp
qed

theorem run_remove_filters_witness:
  "remove_loop example_externals [M_size_t 1] 0 example_manifest \<lparr>elements = []\<rparr> =
     \<lparr>elements = [example_A, example_C]\<rparr> \<and>
   (\<exists>info sink.
      run_remove example_externals example_profile [''1''] =
        ([PrintInfo_removed 1 2,
          BuildProfile [(''/nix/store/a'', True, 5), (''/nix/store/c'', True, 5)],
          WriteFile ''manifest.json'' (toJSON example_externals \<lparr>elements = [example_A, example_C]\<rparr>),
          AddToStore info sink, UpdateProfile (path info)], None))"
proof -
  have l: "load example_externals example_profile = Inr example_manifest"
    by code_simp
  have g: "getMatchers example_externals [''1''] = Inr [M_size_t 1]"
    by code_simp
  have k: "map snd (filter (\<lambda>(i, e). \<not> matches example_externals e i [M_size_t 1])
      (enumerate 0 (elements example_manifest))) = [example_A, example_C]"
    by code_simp
  have n: "length (elements example_manifest) = 3"
    by code_simp
  have p: "concat (map (\<lambda>e. if active e
                             then map (\<lambda>p. (p, True, 5::int)) (sorted_list_of_fset (storePaths e))
                             else []) [example_A, example_C]) =
      [(''/nix/store/a'', True, 5), (''/nix/store/c'', True, 5)]"
    by code_simp
  have b: "buildProfile example_externals [(''/nix/store/a'', True, 5), (''/nix/store/c'', True, 5)] =
      Inr ([(''/nix/store/a'', True, 5), (''/nix/store/c'', True, 5)], [])"
    by (simp add: example_externals_def)
  from run_remove_filters[OF l g] show ?thesis
    unfolding k n p by (auto simp: b)
qed

lemma install_loop_other:
  "Installable_Other w \<in> set installables \<Longrightarrow>
   \<exists>x. install_loop X installables m p = Inl x"
  by (induction installables arbitrary: m p)
     (auto split: Installable.splits sum.splits prod.splits)

lemma install_loop_first_other:
  "\<forall>i\<in>set pre. \<exists>f r. i = Installable_Flake f \<and> toDerivation X f = Inr r \<Longrightarrow>
   install_loop X (pre @ Installable_Other w # post) m p = Inl (UnsupportedInstallable w)"
  by (induction pre arbitrary: m p) (auto split: prod.splits)

lemma install_loop_flakes:
  "list_all2 (\<lambda>i (f, a, r, d). i = Installable_Flake f \<and> toDerivation X f = Inr (a, r, d))
     installables rs \<Longrightarrow>
   install_loop X installables m p =
     Inr (m\<lparr>elements := elements m @
            map (\<lambda>(f, a, r, d).
                   \<lparr>storePaths = {|outPath d|},
                    source = Some \<lparr>originalRef = flakeRef f, resolvedRef = r, attrPath = a\<rparr>,
                    active = True\<rparr>) rs\<rparr>,
          fset_of_list (map (\<lambda>(f, a, r, d). makeDrvPathWithOutputs X (drvPath d) [''out'']) rs)
            |\<union>| p)"
proof (induction installables arbitrary: rs m p)
  case Nil
  then show ?case by simp
next
  case (Cons i more)
  from Cons.prems obtain f a r d rs' where rs: "rs = (f, a, r, d) # rs'"
    and i: "i = Installable_Flake f" "toDerivation X f = Inr (a, r, d)"
    and rest: "list_all2 (\<lambda>i (f, a, r, d). i = Installable_Flake f \<and>
                 toDerivation X f = Inr (a, r, d)) more rs'"
    by (auto simp: list_all2_Cons1)
  show ?case
    using i by (simp add: rs Cons.IH[OF rest])
qed

text \<open>
  Claim C9, as stated, fails: of two installables that are no flake installables, only
  the first is named. The loop throws at the first one and never reaches the second.
\<close>

theorem run_install_names_first_counterexample:
  "run_install example_externals None [Installable_Other ''a'', Installable_Other ''b''] =
   ([], Some (UnsupportedInstallable ''a''))"
  by (simp add: run_install_def load_def)

text \<open>
  Claim C9, amended. If some requested installable is no flake installable, \<open>install\<close>
  fails before any call to the store, the builder or \<^verbatim>\<open>updateProfile\<close>. When the manifest
  loads and every installable before the first such argument resolves, the error names
  that argument. When the manifest loads and every installable is a flake installable that
  resolves, \<open>install\<close> appends, in order, one element for each: \<open>active\<close> set, the output
  path of the derivation as its only store path, and the source made of the installable's
  reference, the resolved reference and the attribute path; it asks the store for all
  their derivations in one call, then builds and publishes this manifest.
\<close>

theorem run_install_appends_or_rejects:
  "(\<forall>w. Installable_Other w \<in> set installables \<longrightarrow>
      (\<exists>x. run_install X profile installables = ([], Some x))) \<and>
   (\<forall>manifest pre w post.
      load X profile = Inr manifest \<longrightarrow>
      installables = pre @ Installable_Other w # post \<longrightarrow>
      (\<forall>i\<in>set pre. \<exists>f r. i = Installable_Flake f \<and> toDerivation X f = Inr r) \<longrightarrow>
      run_install X profile installables = ([], Some (UnsupportedInstallable w))) \<and>
   (\<forall>manifest rs.
      load X profile = Inr manifest \<longrightarrow>
      list_all2 (\<lambda>i (f, a, r, d). i = Installable_Flake f \<and> toDerivation X f = Inr (a, r, d))
        installables rs \<longrightarrow>
      (\<exists>manifest' pathsToBuild calls res.
         install_loop X installables manifest {||} = Inr (manifest', pathsToBuild) \<and>
         elements manifest' = elements manifest @
           map (\<lambda>(f, a, r, d).
                  \<lparr>storePaths = {|outPath d|},
                   source = Some \<lparr>originalRef = flakeRef f, resolvedRef = r, attrPath = a\<rparr>,
                   active = True\<rparr>) rs \<and>
         pathsToBuild =
           fset_of_list (map (\<lambda>(f, a, r, d). makeDrvPathWithOutputs X (drvPath d) [''out'']) rs) \<and>
         run_install X profile installables = (BuildPaths pathsToBuild # calls, res) \<and>
         (case buildPaths X pathsToBuild of
            Some x \<Rightarrow> calls = [] \<and> res = Some x
          | None \<Rightarrow> (calls, res) = finish X [] manifest')))"
proof (intro conjI allI impI)
  fix w
  assume "Installable_Other w \<in> set installables"
  then have il: "\<exists>x. install_loop X installables m {||} = Inl x" for m
    by (rule install_loop_other)
  show "\<exists>x. run_install X profile installables = ([], Some x)"
  proof (cases "load X profile")
    case (Inl x)
    then show ?thesis by (simp add: run_install_def)
  next
    case (Inr m)
    from il[of m] obtain x where "install_loop X installables m {||} = Inl x"
      by blast
    with Inr show ?thesis by (simp add: run_install_def)
  qed
next
  fix manifest pre w post
  assume "load X profile = Inr manifest"
    and "installables = pre @ Installable_Other w # post"
    and "\<forall>i\<in>set pre. \<exists>f r. i = Installable_Flake f \<and> toDerivation X f = Inr r"
  then show "run_install X profile installables = ([], Some (UnsupportedInstallable w))"
    by (simp add: run_install_def install_loop_first_other)
next
  fix manifest rs
  assume l: "load X profile = Inr manifest"
    and a: "list_all2 (\<lambda>i (f, a, r, d). i = Installable_Flake f \<and>
              toDerivation X f = Inr (a, r, d)) installables rs"
  let ?m = "manifest\<lparr>elements := elements manifest @
            map (\<lambda>(f, a, r, d).
                   \<lparr>storePaths = {|outPath d|},
                    source = Some \<lparr>originalRef = flakeRef f, resolvedRef = r, attrPath = a\<rparr>,
                    active = True\<rparr>) rs\<rparr>"
  let ?p = "fset_of_list (map (\<lambda>(f, a, r, d). makeDrvPathWithOutputs X (drvPath d) [''out'']) rs)"
  have il: "install_loop X installables manifest {||} = Inr (?m, ?p)"
    using install_loop_flakes[OF a, of manifest "{||}"] by simp
  show "\<exists>manifest' pathsToBuild calls res.
         install_loop X installables manifest {||} = Inr (manifest', pathsToBuild) \<and>
         elements manifest' = elements manifest @
           map (\<lambda>(f, a, r, d).
                  \<lparr>storePaths = {|outPath d|},
                   source = Some \<lparr>originalRef = flakeRef f, resolvedRef = r, attrPath = a\<rparr>,
                   active = True\<rparr>) rs \<and>
         pathsToBuild =
           fset_of_list (map (\<lambda>(f, a, r, d). makeDrvPathWithOutputs X (drvPath d) [''out'']) rs) \<and>
         run_install X profile installables = (BuildPaths pathsToBuild # calls, res) \<and>
         (case buildPaths X pathsToBuild of
            Some x \<Rightarrow> calls = [] \<and> res = Some x
          | None \<Rightarrow> (calls, res) = finish X [] manifest')"
  proof (cases "buildPaths X ?p")
    case None
    then have ri: "run_install X profile installables = finish X [BuildPaths ?p] ?m"
      using l il by (simp add: run_install_def)
    have "finish X [BuildPaths ?p] ?m =
        (BuildPaths ?p # fst (finish X [] ?m), snd (finish X [] ?m))"
      by (simp add: finish_def split: prod.splits sum.splits)
    with ri have "run_install X profile installables =
        (BuildPaths ?p # fst (finish X [] ?m), snd (finish X [] ?m))"
      by (simp only:)
    with il None show ?thesis by auto
  next
    case (Some x)
    then have "run_install X profile installables = ([BuildPaths ?p], Some x)"
      using l il by (simp add: run_install_def)
    with il Some show ?thesis by auto
  qed
qed

theorem run_install_appends_or_rejects_witness:
  "run_install example_externals None
     [Installable_Flake \<lparr>flakeRef = ''nixpkgs'', attrPaths = [''hello'']\<rparr>,
      Installable_Other ''x'', Installable_Other ''y''] =
     ([], Some (UnsupportedInstallable ''x'')) \<and>
   (\<exists>manifest' pathsToBuild calls res.
      install_loop example_externals
        [Installable_Flake \<lparr>flakeRef = ''nixpkgs'', attrPaths = [''hello'']\<rparr>]
        \<lparr>elements = []\<rparr> {||} = Inr (manifest', pathsToBuild) \<and>
      elements manifest' =
        [\<lparr>storePaths = {|''/nix/store/hello-2''|},
          source = Some \<lparr>originalRef = ''nixpkgs'', resolvedRef = ''nixpkgs?rev=2'',
                         attrPath = ''hello''\<rparr>,
          active = True\<rparr>] \<and>
      pathsToBuild = {|''/nix/store/hello-2.drv!out''|} \<and>
      run_install example_externals None
        [Installable_Flake \<lparr>flakeRef = ''nixpkgs'', attrPaths = [''hello'']\<rparr>] =
        (BuildPaths pathsToBuild # calls, res))"
proof -
  have l: "load example_externals None = Inr \<lparr>elements = []\<rparr>"
    by (simp add: load_def)
  have d: "toDerivation example_externals \<lparr>flakeRef = ''nixpkgs'', attrPaths = [''hello'']\<rparr> =
      Inr (''hello'', ''nixpkgs?rev=2'',
           \<lparr>drvPath = ''/nix/store/hello-2.drv'', outPath = ''/nix/store/hello-2''\<rparr>)"
    by (simp add: example_externals_def example_toDerivation_def)
  have m: "makeDrvPathWithOutputs example_externals ''/nix/store/hello-2.drv'' [''out''] =
      ''/nix/store/hello-2.drv!out''"
    by (simp add: example_externals_def)
  have 1: "run_install example_externals None
     [Installable_Flake \<lparr>flakeRef = ''nixpkgs'', attrPaths = [''hello'']\<rparr>,
      Installable_Other ''x'', Installable_Other ''y''] =
     ([], Some (UnsupportedInstallable ''x''))"
    using run_install_appends_or_rejects[of
          "[Installable_Flake \<lparr>flakeRef = ''nixpkgs'', attrPaths = [''hello'']\<rparr>,
            Installable_Other ''x'', Installable_Other ''y'']" example_externals None,
        THEN conjunct2, THEN conjunct1, rule_format,
        of "\<lparr>elements = []\<rparr>"
          "[Installable_Flake \<lparr>flakeRef = ''nixpkgs'', attrPaths = [''hello'']\<rparr>]"
          "''x''" "[Installable_Other ''y'']"] l d
    by simp
  have 2: "\<exists>manifest' pathsToBuild calls res.
      install_loop example_externals
        [Installable_Flake \<lparr>flakeRef = ''nixpkgs'', attrPaths = [''hello'']\<rparr>]
        \<lparr>elements = []\<rparr> {||} = Inr (manifest', pathsToBuild) \<and>
      elements manifest' =
        [\<lparr>storePaths = {|''/nix/store/hello-2''|},
          source = Some \<lparr>originalRef = ''nixpkgs'', resolvedRef = ''nixpkgs?rev=2'',
                         attrPath = ''hello''\<rparr>,
          active = True\<rparr>] \<and>
      pathsToBuild = {|''/nix/store/hello-2.drv!out''|} \<and>
      run_install example_externals None
        [Installable_Flake \<lparr>flakeRef = ''nixpkgs'', attrPaths = [''hello'']\<rparr>] =
        (BuildPaths pathsToBuild # calls, res)"
    using run_install_appends_or_rejects[of
          "[Installable_Flake \<lparr>flakeRef = ''nixpkgs'', attrPaths = [''hello'']\<rparr>]"
          example_externals None,
        THEN conjunct2, THEN conjunct2, rule_format,
        of "\<lparr>elements = []\<rparr>"
          "[(\<lparr>flakeRef = ''nixpkgs'', attrPaths = [''hello'']\<rparr>, ''hello'', ''nixpkgs?rev=2'',
             \<lparr>drvPath = ''/nix/store/hello-2.drv'', outPath = ''/nix/store/hello-2''\<rparr>)]"] l d m
    by auto
  from 1 2 show ?thesis by blast
qed

lemma upgrade_element_cases:
  assumes "upgrade_element X ms i e = (c, Inr (e', p))"
  shows "case source e of
           None \<Rightarrow> e' = e \<and> c = [] \<and> p = {||}
         | Some src \<Rightarrow>
             if isImmutable X (originalRef src) \<or> \<not> matches X e i ms
             then e' = e \<and> c = [] \<and> p = {||}
             else (\<exists>a r d.
                     toDerivation X \<lparr>flakeRef = originalRef src, attrPaths = [attrPath src]\<rparr> =
                       Inr (a, r, d) \<and>
                     (if resolvedRef src = r
                      then e' = e \<and> c = [Activity_checking (attrPath src)] \<and> p = {||}
                      else e' = e\<lparr>storePaths := {|outPath d|},
                                   source := Some \<lparr>originalRef = originalRef src,
                                                   resolvedRef = r, attrPath = a\<rparr>\<rparr> \<and>
                           c = [Activity_checking (attrPath src),
                                PrintInfo_upgrading (attrPath src) (resolvedRef src) r] \<and>
                           p = {|makeDrvPathWithOutputs X (drvPath d) [''out'']|}))"
  using assms
  by (auto simp: upgrade_element_def split: option.splits sum.splits if_splits prod.splits)

lemma upgrade_loop_spec:
  assumes "upgrade_loop X ms i m ptb tr = (tr', Inr (m', ptb'))"
  shows "length (elements m') = length (elements m) \<and>
    (\<forall>j. j < i \<longrightarrow> j < length (elements m) \<longrightarrow> elements m' ! j = elements m ! j) \<and>
    (\<forall>j. i \<le> j \<longrightarrow> j < length (elements m) \<longrightarrow>
       (\<exists>c p. upgrade_element X ms j (elements m ! j) = (c, Inr (elements m' ! j, p)))) \<and>
    tr' = tr @ concat (map (\<lambda>j. fst (upgrade_element X ms j (elements m ! j)))
                        [i..<length (elements m)]) \<and>
    ptb' = ffUnion (fset_of_list
             (map (\<lambda>j. case snd (upgrade_element X ms j (elements m ! j)) of
                          Inl x \<Rightarrow> {||} | Inr (e, p) \<Rightarrow> p) [i..<length (elements m)])) |\<union>| ptb"
  using assms
proof (induction X ms i m ptb tr arbitrary: tr' m' ptb' rule: upgrade_loop.induct)
  case (1 X ms i m ptb tr)
  show ?case
  proof (cases "i < length (elements m)")
    case False
    with "1.prems" show ?thesis
      by (subst (asm) upgrade_loop.simps) auto
  next
    case True
    from "1.prems" True obtain c e' p where
      ue: "upgrade_element X ms i (elements m ! i) = (c, Inr (e', p))"
      and rec: "upgrade_loop X ms (Suc i) (m\<lparr>elements := (elements m)[i := e']\<rparr>)
                  (p |\<union>| ptb) (tr @ c) = (tr', Inr (m', ptb'))"
      by (subst (asm) upgrade_loop.simps) (auto split: prod.splits sum.splits)
    let ?m1 = "m\<lparr>elements := (elements m)[i := e']\<rparr>"
    note IH = "1.IH"[OF True ue[symmetric] refl refl rec]
    have len: "length (elements ?m1) = length (elements m)" by simp
    have same: "elements ?m1 ! j = elements m ! j" if "j \<noteq> i" for j
      using that by simp
    have at_i: "elements ?m1 ! i = e'" using True by simp
    have range: "[i..<length (elements m)] = i # [Suc i..<length (elements m)]"
      using True by (simp add: upt_conv_Cons)
    have m1: "map (\<lambda>j. f j (elements ?m1 ! j)) [Suc i..<length (elements m)] =
              map (\<lambda>j. f j (elements m ! j)) [Suc i..<length (elements m)]" for f :: "nat \<Rightarrow> 'a ProfileElement \<Rightarrow> 'z"
      by (rule map_cong) auto
    from IH have l: "length (elements m') = length (elements m)" by simp
    from IH have low: "\<forall>j. j < Suc i \<longrightarrow> j < length (elements m) \<longrightarrow>
        elements m' ! j = elements ?m1 ! j" by simp
    from IH have high: "\<forall>j. Suc i \<le> j \<longrightarrow> j < length (elements m) \<longrightarrow>
       (\<exists>c p. upgrade_element X ms j (elements ?m1 ! j) = (c, Inr (elements m' ! j, p)))"
      by simp
    from IH have t: "tr' = (tr @ c) @ concat (map (\<lambda>j. fst (upgrade_element X ms j (elements ?m1 ! j)))
                        [Suc i..<length (elements m)])" by simp
    from IH have pb: "ptb' = ffUnion (fset_of_list
             (map (\<lambda>j. case snd (upgrade_element X ms j (elements ?m1 ! j)) of
                          Inl x \<Rightarrow> {||} | Inr (e, p) \<Rightarrow> p) [Suc i..<length (elements m)]))
             |\<union>| (p |\<union>| ptb)" by simp
    have g1: "\<forall>j. j < i \<longrightarrow> j < length (elements m) \<longrightarrow> elements m' ! j = elements m ! j"
      using low same by (metis less_Suc_eq nat_neq_iff)
    have mi: "elements m' ! i = e'"
      using low True at_i by (metis lessI)
    have g2: "\<forall>j. i \<le> j \<longrightarrow> j < length (elements m) \<longrightarrow>
       (\<exists>c p. upgrade_element X ms j (elements m ! j) = (c, Inr (elements m' ! j, p)))"
    proof (intro allI impI)
      fix j assume "i \<le> j" "j < length (elements m)"
      show "\<exists>c p. upgrade_element X ms j (elements m ! j) = (c, Inr (elements m' ! j, p))"
      proof (cases "j = i")
        case True
        with ue mi show ?thesis by auto
      next
        case False
        with \<open>i \<le> j\<close> have "Suc i \<le> j" by simp
        with high \<open>j < length (elements m)\<close> same[OF False] show ?thesis by metis
      qed
    qed
    have g3: "tr' = tr @ concat (map (\<lambda>j. fst (upgrade_element X ms j (elements m ! j)))
                        [i..<length (elements m)])"
      unfolding t range m1[of "\<lambda>j e. fst (upgrade_element X ms j e)"] using ue by simp
    have g4: "ptb' = ffUnion (fset_of_list
             (map (\<lambda>j. case snd (upgrade_element X ms j (elements m ! j)) of
                          Inl x \<Rightarrow> {||} | Inr (e, p) \<Rightarrow> p) [i..<length (elements m)])) |\<union>| ptb"
      unfolding pb range
        m1[of "\<lambda>j e. case snd (upgrade_element X ms j e) of Inl x \<Rightarrow> {||} | Inr (e, p) \<Rightarrow> p"]
      using ue by (simp add: sup.assoc sup.commute sup.left_commute)
    from l g1 g2 g3 g4 show ?thesis by blast
  qed
qed


lemma fmember_ffUnion_map:
  "q |\<in>| ffUnion (fset_of_list (map f xs)) \<longleftrightarrow> (\<exists>x\<in>set xs. q |\<in>| f x)"
  by (induction xs) auto

lemma fmember_ffUnion_image:
  "q |\<in>| ffUnion (f |`| fset_of_list xs) \<longleftrightarrow> (\<exists>x\<in>set xs. q |\<in>| f x)"
  using fmember_ffUnion_map[of q f xs] by simp

lemma concat_map_concat:
  "concat (map g (concat xss)) = concat (map (\<lambda>xs. concat (map g xs)) xss)"
  by (induction xss) auto

lemma upgrade_element_checking:
  "[a. Activity_checking a \<leftarrow> fst (upgrade_element X ms i e)] =
   [attrPath src. Some src \<leftarrow> [source e],
      \<not> isImmutable X (originalRef src) \<and> matches X e i ms]"
  by (auto simp: upgrade_element_def split: option.splits sum.splits prod.splits)

lemma map_index_enumerate:
  "map (\<lambda>j. f j (xs ! j)) [0..<length xs] = map (\<lambda>(j, e). f j e) (enumerate 0 xs)"
  by (rule nth_equalityI) (simp_all add: nth_enumerate_eq)

text \<open>
  Claim C8. When the manifest loads, the selectors give matchers and every resolution
  returns, the manifest that \<open>upgrade\<close> builds has the elements of the loaded one, each at
  its position. The elements checked for updates (re-resolved) are exactly those with a
  source whose original reference is not immutable and that match at their position. An
  element without a source, with an immutable original reference or that does not match
  is unchanged. A checked element whose fresh resolved reference equals the recorded one is
  unchanged, and nothing is asked to be built for it; otherwise its store paths become the
  derivation's output path and its source the original reference with the fresh resolved
  reference and attribute path, and its derivation is among the paths to build. Nothing
  else is among the paths to build.
\<close>

theorem run_upgrade_elements:
  assumes "load X profile = Inr manifest"
    and "getMatchers X selectors = Inr matchers"
    and "upgrade_loop X matchers 0 manifest {||} [] = (tr, Inr (manifest', pathsToBuild))"
  shows
   "length (elements manifest') = length (elements manifest) \<and>
    (\<forall>i<length (elements manifest).
       case source (elements manifest ! i) of
         None \<Rightarrow> elements manifest' ! i = elements manifest ! i
       | Some src \<Rightarrow>
           if isImmutable X (originalRef src) \<or> \<not> matches X (elements manifest ! i) i matchers
           then elements manifest' ! i = elements manifest ! i
           else (\<exists>a r d.
                   toDerivation X \<lparr>flakeRef = originalRef src, attrPaths = [attrPath src]\<rparr> =
                     Inr (a, r, d) \<and>
                   (if resolvedRef src = r
                    then elements manifest' ! i = elements manifest ! i
                    else elements manifest' ! i =
                           (elements manifest ! i)
                             \<lparr>storePaths := {|outPath d|},
                              source := Some \<lparr>originalRef = originalRef src,
                                              resolvedRef = r, attrPath = a\<rparr>\<rparr> \<and>
                         makeDrvPathWithOutputs X (drvPath d) [''out''] |\<in>| pathsToBuild))) \<and>
    [a. Activity_checking a \<leftarrow> tr] =
      [attrPath src. (i, e) \<leftarrow> enumerate 0 (elements manifest), Some src \<leftarrow> [source e],
         \<not> isImmutable X (originalRef src) \<and> matches X e i matchers] \<and>
    (\<forall>p. p |\<in>| pathsToBuild \<longrightarrow>
       (\<exists>i src a r d.
          i < length (elements manifest) \<and> source (elements manifest ! i) = Some src \<and>
          \<not> isImmutable X (originalRef src) \<and> matches X (elements manifest ! i) i matchers \<and>
          toDerivation X \<lparr>flakeRef = originalRef src, attrPaths = [attrPath src]\<rparr> =
            Inr (a, r, d) \<and>
          resolvedRef src \<noteq> r \<and> p = makeDrvPathWithOutputs X (drvPath d) [''out''])) \<and>
    (\<exists>calls res.
       run_upgrade X profile selectors = (tr @ BuildPaths pathsToBuild # calls, res) \<and>
       (case buildPaths X pathsToBuild of
          Some x \<Rightarrow> calls = [] \<and> res = Some x
        | None \<Rightarrow> (calls, res) = finish X [] manifest'))"
proof -
  let ?els = "elements manifest"
  let ?n = "length ?els"
  note spec = upgrade_loop_spec[OF assms(3)]
  from spec have len: "length (elements manifest') = ?n" by simp
  from spec have each: "\<forall>j. j < ?n \<longrightarrow>
      (\<exists>c p. upgrade_element X matchers j (?els ! j) = (c, Inr (elements manifest' ! j, p)))"
    by simp
  from spec have t: "tr = concat (map (\<lambda>j. fst (upgrade_element X matchers j (?els ! j))) [0..<?n])"
    by simp
  from spec have pb: "pathsToBuild = ffUnion (fset_of_list
      (map (\<lambda>j. case snd (upgrade_element X matchers j (?els ! j)) of
                   Inl x \<Rightarrow> {||} | Inr (e, p) \<Rightarrow> p) [0..<?n]))"
    by simp
  have in_pb: "p |\<subseteq>| pathsToBuild"
    if "j < ?n" "upgrade_element X matchers j (?els ! j) = (c, Inr (e', p))" for j c e' p
    unfolding pb using that by (auto simp: fmember_ffUnion_image intro!: bexI[of _ j])
  have g2: "\<forall>i<?n.
       case source (?els ! i) of
         None \<Rightarrow> elements manifest' ! i = ?els ! i
       | Some src \<Rightarrow>
           if isImmutable X (originalRef src) \<or> \<not> matches X (?els ! i) i matchers
           then elements manifest' ! i = ?els ! i
           else (\<exists>a r d.
                   toDerivation X \<lparr>flakeRef = originalRef src, attrPaths = [attrPath src]\<rparr> =
                     Inr (a, r, d) \<and>
                   (if resolvedRef src = r
                    then elements manifest' ! i = ?els ! i
                    else elements manifest' ! i =
                           (?els ! i)
                             \<lparr>storePaths := {|outPath d|},
                              source := Some \<lparr>originalRef = originalRef src,
                                              resolvedRef = r, attrPath = a\<rparr>\<rparr> \<and>
                         makeDrvPathWithOutputs X (drvPath d) [''out''] |\<in>| pathsToBuild))"
  proof (intro allI impI)
    fix i assume i: "i < ?n"
    with each obtain c p where
      ue: "upgrade_element X matchers i (?els ! i) = (c, Inr (elements manifest' ! i, p))"
      by blast
    from in_pb[OF i ue] have sub: "p |\<subseteq>| pathsToBuild" .
    from upgrade_element_cases[OF ue] sub
    show "case source (?els ! i) of
         None \<Rightarrow> elements manifest' ! i = ?els ! i
       | Some src \<Rightarrow>
           if isImmutable X (originalRef src) \<or> \<not> matches X (?els ! i) i matchers
           then elements manifest' ! i = ?els ! i
           else (\<exists>a r d.
                   toDerivation X \<lparr>flakeRef = originalRef src, attrPaths = [attrPath src]\<rparr> =
                     Inr (a, r, d) \<and>
                   (if resolvedRef src = r
                    then elements manifest' ! i = ?els ! i
                    else elements manifest' ! i =
                           (?els ! i)
                             \<lparr>storePaths := {|outPath d|},
                              source := Some \<lparr>originalRef = originalRef src,
                                              resolvedRef = r, attrPath = a\<rparr>\<rparr> \<and>
                         makeDrvPathWithOutputs X (drvPath d) [''out''] |\<in>| pathsToBuild))"
      by (auto split: option.splits if_splits)
  qed
  have g3: "[a. Activity_checking a \<leftarrow> tr] =
      [attrPath src. (i, e) \<leftarrow> enumerate 0 ?els, Some src \<leftarrow> [source e],
         \<not> isImmutable X (originalRef src) \<and> matches X e i matchers]"
  proof -
    have "[a. Activity_checking a \<leftarrow> tr] =
        concat (map (\<lambda>j. [a. Activity_checking a \<leftarrow> fst (upgrade_element X matchers j (?els ! j))])
                  [0..<?n])"
      unfolding t by (simp only: concat_map_concat map_map comp_def)
    also have "\<dots> = concat (map (\<lambda>j. [attrPath src. Some src \<leftarrow> [source (?els ! j)],
        \<not> isImmutable X (originalRef src) \<and> matches X (?els ! j) j matchers]) [0..<?n])"
      by (simp only: upgrade_element_checking)
    also have "\<dots> = concat (map (\<lambda>(j, e). [attrPath src. Some src \<leftarrow> [source e],
        \<not> isImmutable X (originalRef src) \<and> matches X e j matchers]) (enumerate 0 ?els))"
      by (simp only: map_index_enumerate[of "\<lambda>j e. [attrPath src. Some src \<leftarrow> [source e],
        \<not> isImmutable X (originalRef src) \<and> matches X e j matchers]"])
    finally show ?thesis
      by (simp add: case_prod_unfold)
  qed
  have g4: "\<forall>p. p |\<in>| pathsToBuild \<longrightarrow>
       (\<exists>i src a r d.
          i < ?n \<and> source (?els ! i) = Some src \<and>
          \<not> isImmutable X (originalRef src) \<and> matches X (?els ! i) i matchers \<and>
          toDerivation X \<lparr>flakeRef = originalRef src, attrPaths = [attrPath src]\<rparr> =
            Inr (a, r, d) \<and>
          resolvedRef src \<noteq> r \<and> p = makeDrvPathWithOutputs X (drvPath d) [''out''])"
  proof (intro allI impI)
    fix p assume "p |\<in>| pathsToBuild"
    then obtain j where j: "j < ?n"
      and p: "p |\<in>| (case snd (upgrade_element X matchers j (?els ! j)) of
                       Inl x \<Rightarrow> {||} | Inr (e, q) \<Rightarrow> q)"
      unfolding pb by (auto simp: fmember_ffUnion_image)
    from each j obtain c q where
      ue: "upgrade_element X matchers j (?els ! j) = (c, Inr (elements manifest' ! j, q))"
      by blast
    with p have pq: "p |\<in>| q" by simp
    from upgrade_element_cases[OF ue] pq j
    show "\<exists>i src a r d.
          i < ?n \<and> source (?els ! i) = Some src \<and>
          \<not> isImmutable X (originalRef src) \<and> matches X (?els ! i) i matchers \<and>
          toDerivation X \<lparr>flakeRef = originalRef src, attrPaths = [attrPath src]\<rparr> =
            Inr (a, r, d) \<and>
          resolvedRef src \<noteq> r \<and> p = makeDrvPathWithOutputs X (drvPath d) [''out'']"
      by (cases "source (?els ! j)") (auto split: if_splits intro!: exI[of _ j])
  qed
  have g5: "\<exists>calls res.
       run_upgrade X profile selectors = (tr @ BuildPaths pathsToBuild # calls, res) \<and>
       (case buildPaths X pathsToBuild of
          Some x \<Rightarrow> calls = [] \<and> res = Some x
        | None \<Rightarrow> (calls, res) = finish X [] manifest')"
  proof (cases "buildPaths X pathsToBuild")
    case None
    then have ri: "run_upgrade X profile selectors =
        finish X (tr @ [BuildPaths pathsToBuild]) manifest'"
      using assms by (simp add: run_upgrade_def)
    have "finish X (tr @ [BuildPaths pathsToBuild]) manifest' =
        (tr @ BuildPaths pathsToBuild # fst (finish X [] manifest'), snd (finish X [] manifest'))"
      by (simp add: finish_def split: prod.splits sum.splits)
    with ri have "run_upgrade X profile selectors =
        (tr @ BuildPaths pathsToBuild # fst (finish X [] manifest'), snd (finish X [] manifest'))"
      by (simp only:)
    with None show ?thesis by auto
  next
    case (Some x)
    then have "run_upgrade X profile selectors = (tr @ [BuildPaths pathsToBuild], Some x)"
      using assms by (simp add: run_upgrade_def)
    with Some show ?thesis by auto
  qed
  from len g2 g3 g4 g5 show ?thesis by blast
qed

theorem run_upgrade_elements_witness:
  "upgrade_loop example_externals [M_regex ''.*''] 0 example_manifest {||} [] =
     ([Activity_checking ''hello'',
       PrintInfo_upgrading ''hello'' ''nixpkgs?rev=1'' ''nixpkgs?rev=2''],
      Inr (\<lparr>elements =
              [example_A, example_B,
               \<lparr>storePaths = {|''/nix/store/hello-2''|},
                source = Some \<lparr>originalRef = ''nixpkgs'', resolvedRef = ''nixpkgs?rev=2'',
                               attrPath = ''hello''\<rparr>,
                active = True\<rparr>]\<rparr>,
           {|''/nix/store/hello-2.drv!out''|})) \<and>
   [a. Activity_checking a \<leftarrow>
      [Activity_checking ''hello'',
       PrintInfo_upgrading ''hello'' ''nixpkgs?rev=1'' ''nixpkgs?rev=2'']] =
     [attrPath src. (i, e) \<leftarrow> enumerate 0 (elements example_manifest),
        Some src \<leftarrow> [source e],
        \<not> isImmutable example_externals (originalRef src) \<and>
        matches example_externals e i [M_regex ''.*'']] \<and>
   (\<exists>calls res.
      run_upgrade example_externals example_profile [''.*''] =
        ([Activity_checking ''hello'',
          PrintInfo_upgrading ''hello'' ''nixpkgs?rev=1'' ''nixpkgs?rev=2''] @
         BuildPaths {|''/nix/store/hello-2.drv!out''|} # calls, res))"
proof -
  have l: "load example_externals example_profile = Inr example_manifest"
    by code_simp
  have g: "getMatchers example_externals [''.*''] = Inr [M_regex ''.*'']"
    by code_simp
  have u: "upgrade_loop example_externals [M_regex ''.*''] 0 example_manifest {||} [] =
     ([Activity_checking ''hello'',
       PrintInfo_upgrading ''hello'' ''nixpkgs?rev=1'' ''nixpkgs?rev=2''],
      Inr (\<lparr>elements =
              [example_A, example_B,
               \<lparr>storePaths = {|''/nix/store/hello-2''|},
                source = Some \<lparr>originalRef = ''nixpkgs'', resolvedRef = ''nixpkgs?rev=2'',
                               attrPath = ''hello''\<rparr>,
                active = True\<rparr>]\<rparr>,
           {|''/nix/store/hello-2.drv!out''|}))"
    by code_simp
  from run_upgrade_elements[OF l g u] u show ?thesis
    by blast
qed

end
